theory Spec2Isabelle
  imports Main
begin

section \<open>Python values used by \<^verbatim>\<open>main.py\<close>\<close>

text \<open>
  A Python \<^verbatim>\<open>str\<close> is a \<^typ>\<open>string\<close>; a character stands for the code point
  of the same number, so the model covers the strings over code points below 256.
  \<^verbatim>\<open>Optional[str]\<close> is \<^typ>\<open>string option\<close>, with \<open>None\<close> for Python's
  \<^verbatim>\<open>None\<close>.
\<close>

definition isspace :: "char \<Rightarrow> bool" where
  \<comment> \<open>\<^verbatim>\<open>str.isspace\<close> on one character: the white space code points below 256.\<close>
  "isspace c = ((of_char c :: nat) \<in> set [9, 10, 11, 12, 13, 28, 29, 30, 31, 32, 133, 160])"

definition strip :: "string \<Rightarrow> string" where
  \<comment> \<open>\<^verbatim>\<open>s.strip()\<close>: leading and trailing white space removed.\<close>
  "strip s = rev (dropWhile isspace (rev (dropWhile isspace s)))"

definition truthy :: "string option \<Rightarrow> bool" where
  \<comment> \<open>\<^verbatim>\<open>bool(x)\<close> for an \<^verbatim>\<open>Optional[str]\<close>: neither \<^verbatim>\<open>None\<close> nor empty.\<close>
  "truthy x = (case x of None \<Rightarrow> False | Some s \<Rightarrow> s \<noteq> [])"

definition py_or :: "string option \<Rightarrow> string \<Rightarrow> string" where
  \<comment> \<open>\<^verbatim>\<open>x or d\<close> for an \<^verbatim>\<open>Optional[str]\<close> \<open>x\<close> and a \<^verbatim>\<open>str\<close> \<open>d\<close>.\<close>
  "py_or x d = (case x of None \<Rightarrow> d | Some s \<Rightarrow> if s \<noteq> [] then s else d)"

fun join :: "string \<Rightarrow> string list \<Rightarrow> string" where
  \<comment> \<open>\<^verbatim>\<open>sep.join(xs)\<close>\<close>
  "join sep [] = []"
| "join sep [x] = x"
| "join sep (x # y # ys) = x @ sep @ join sep (y # ys)"

datatype exit = SystemExit string

section \<open>Config\<close>

text \<open>
  The process environment, after \<^verbatim>\<open>load_dotenv()\<close>, is a map from names to values;
  the module-level constants are read from it once.
\<close>

type_synonym environ = "string \<rightharpoonup> string"

definition getenv :: "environ \<Rightarrow> string \<Rightarrow> string option" where
  "getenv env k = env k"

definition PIXELA_ENDPOINT :: string where
  "PIXELA_ENDPOINT = ''https://pixe.la/v1/users''"

definition USERNAME :: "environ \<Rightarrow> string option" where
  "USERNAME env = getenv env ''USERNAME''"

definition TOKEN :: "environ \<Rightarrow> string option" where
  "TOKEN env = getenv env ''TOKEN''"

definition GRAPH_ID :: "environ \<Rightarrow> string" where
  \<comment> \<open>\<^verbatim>\<open>os.getenv("GRAPH_ID", "graph1")\<close>\<close>
  "GRAPH_ID env = (case getenv env ''GRAPH_ID'' of None \<Rightarrow> ''graph1'' | Some g \<Rightarrow> g)"

definition HEADERS :: "environ \<Rightarrow> (string \<rightharpoonup> string)" where
  \<comment> \<open>\<^verbatim>\<open>{"X-USER-TOKEN": TOKEN} if TOKEN else {}\<close>\<close>
  "HEADERS env =
     (case TOKEN env of
        None \<Rightarrow> Map.empty
      | Some t \<Rightarrow> if t \<noteq> [] then [''X-USER-TOKEN'' \<mapsto> t] else Map.empty)"

definition HTTP_TIMEOUT :: nat where
  "HTTP_TIMEOUT = 15"

definition USER_AGENT :: "string \<rightharpoonup> string" where
  "USER_AGENT = [''User-Agent'' \<mapsto> ''PixelaHabitTracker/1.0 (+github.com/DEX-01-CODER)'']"

definition graph_id_required :: string where
  "graph_id_required = ''GRAPH_ID is required (set in .env or pass --graph <id>)''"

definition resolve_graph_id :: "string \<Rightarrow> string option \<Rightarrow> exit + string" where
  \<comment> \<open>The first argument is the module constant \<^verbatim>\<open>GRAPH_ID\<close>. The conditional
      expression yields \<^verbatim>\<open>None\<close> when \<^verbatim>\<open>override or GRAPH_ID\<close> is empty, and
      \<^verbatim>\<open>not gid\<close> holds for \<^verbatim>\<open>None\<close> and for the empty string.\<close>
  "resolve_graph_id graph_id_const override =
     (let chosen = py_or override graph_id_const;
          gid = (if chosen \<noteq> [] then Some (strip chosen) else None)
      in case gid of
           None \<Rightarrow> Inl (SystemExit graph_id_required)
         | Some g \<Rightarrow> if g = [] then Inl (SystemExit graph_id_required) else Inr g)"

definition env_missing :: "environ \<Rightarrow> string \<Rightarrow> bool" where
  \<comment> \<open>\<^verbatim>\<open>not os.getenv(k)\<close>\<close>
  "env_missing env k = (\<not> truthy (getenv env k))"

definition missing_message :: "string list \<Rightarrow> string" where
  "missing_message missing =
     ''Missing required environment variables: '' @ join '', '' missing @ ''\<newline>'' @
     ''Create a .env file with at least: USERNAME, TOKEN, GRAPH_ID''"

definition require_env :: "environ \<Rightarrow> string list \<Rightarrow> exit + unit" where
  "require_env env keys =
     (let missing = filter (env_missing env) keys
      in if missing \<noteq> [] then Inl (SystemExit (missing_message missing)) else Inr ())"

section \<open>Rendering Python values as text\<close>

definition digit_char :: "nat \<Rightarrow> char" where
  "digit_char n = char_of (48 + n)"

fun show_nat :: "nat \<Rightarrow> string" where
  \<comment> \<open>\<^verbatim>\<open>str(n)\<close> for a non-negative \<^verbatim>\<open>int\<close>\<close>
  "show_nat n = (if n < 10 then [digit_char n] else show_nat (n div 10) @ [digit_char (n mod 10)])"

declare show_nat.simps [simp del]

definition show_int :: "int \<Rightarrow> string" where
  "show_int i = (if i < 0 then ''-'' @ show_nat (nat (- i)) else show_nat (nat i))"

definition hex_char :: "nat \<Rightarrow> char" where
  "hex_char n = (if n < 10 then char_of (48 + n) else char_of (87 + n))"

definition printable :: "char \<Rightarrow> bool" where
  \<comment> \<open>\<^verbatim>\<open>str.isprintable\<close> on one character, for the code points below 256.\<close>
  "printable c =
     (let n = (of_char c :: nat)
      in (32 \<le> n \<and> n \<le> 126) \<or> (161 \<le> n \<and> n \<noteq> 173))"

definition repr_char :: "char \<Rightarrow> char \<Rightarrow> string" where
  \<comment> \<open>One character of \<^verbatim>\<open>repr(s)\<close>, inside the quote \<open>q\<close>.\<close>
  "repr_char q c =
     (if c = q \<or> c = CHR 0x5C then [CHR 0x5C, c]
      else if c = CHR 0x09 then [CHR 0x5C, CHR ''t'']
      else if c = CHR 0x0A then [CHR 0x5C, CHR ''n'']
      else if c = CHR 0x0D then [CHR 0x5C, CHR ''r'']
      else if printable c then [c]
      else [CHR 0x5C, CHR ''x'', hex_char (of_char c div 16), hex_char (of_char c mod 16)])"

definition repr_str :: "string \<Rightarrow> string" where
  \<comment> \<open>\<^verbatim>\<open>repr(s)\<close> for a \<^verbatim>\<open>str\<close>: single quotes, unless the text has a single
      quote and no double quote.\<close>
  "repr_str s =
     (let q = (if CHR 0x27 \<in> set s \<and> CHR 0x22 \<notin> set s then CHR 0x22 else CHR 0x27)
      in [q] @ concat (map (repr_char q) s) @ [q])"

text \<open>
  The values \<^verbatim>\<open>Response.json()\<close> returns and the values of a request's JSON
  payload. A float is carried by its \<^verbatim>\<open>repr\<close> text: floating point is not modelled.
\<close>

datatype pyobj =
    PyNone
  | PyBool bool
  | PyInt int
  | PyFloat string
  | PyStr string
  | PyList "pyobj list"
  | PyDict "(string \<times> pyobj) list"

fun py_repr :: "pyobj \<Rightarrow> string" where
  "py_repr PyNone = ''None''"
| "py_repr (PyBool b) = (if b then ''True'' else ''False'')"
| "py_repr (PyInt i) = show_int i"
| "py_repr (PyFloat r) = r"
| "py_repr (PyStr s) = repr_str s"
| "py_repr (PyList xs) = ''['' @ join '', '' (map py_repr xs) @ '']''"
| "py_repr (PyDict kvs) =
     ''{'' @ join '', '' (map (\<lambda>(k, v). repr_str k @ '': '' @ py_repr v) kvs) @ ''}''"

definition py_str :: "pyobj \<Rightarrow> string" where
  \<comment> \<open>\<^verbatim>\<open>str(x)\<close>, what an f-string writes for \<^verbatim>\<open>{x}\<close>\<close>
  "py_str x = (case x of PyStr s \<Rightarrow> s | _ \<Rightarrow> py_repr x)"

definition fstr_opt :: "string option \<Rightarrow> string" where
  \<comment> \<open>What an f-string writes for an \<^verbatim>\<open>Optional[str]\<close>\<close>
  "fstr_opt x = (case x of None \<Rightarrow> ''None'' | Some s \<Rightarrow> s)"

definition opt_obj :: "string option \<Rightarrow> pyobj" where
  \<comment> \<open>An \<^verbatim>\<open>Optional[str]\<close> as a payload value\<close>
  "opt_obj x = (case x of None \<Rightarrow> PyNone | Some s \<Rightarrow> PyStr s)"

section \<open>Dates: the parts of \<^verbatim>\<open>datetime\<close> the program uses\<close>

text \<open>
  Only the date fields of a \<^verbatim>\<open>datetime\<close> are kept: the format \<^verbatim>\<open>%Y%m%d\<close> neither
  reads nor writes the time of day.
\<close>

record datetime =
  year :: nat
  month :: nat
  day :: nat

definition is_leap :: "nat \<Rightarrow> bool" where
  "is_leap y = (y mod 4 = 0 \<and> (y mod 100 \<noteq> 0 \<or> y mod 400 = 0))"

definition days_in_month :: "nat \<Rightarrow> nat \<Rightarrow> nat" where
  "days_in_month y m =
     (if m = 2 then (if is_leap y then 29 else 28)
      else if m = 4 \<or> m = 6 \<or> m = 9 \<or> m = 11 then 30 else 31)"

text \<open>
  The date argument of the command line goes through a regular expression that knows
  every decimal digit of Unicode, so a date string is the list of its code points, of any
  size, and so is a URL, which may end in one. A string of the model's other kind lies
  within by \<open>code_points\<close>.
\<close>

type_synonym ustr = "nat list"

definition code_points :: "string \<Rightarrow> ustr" where
  "code_points s = map of_char s"

definition cp :: "char \<Rightarrow> nat" where
  "cp c = of_char c"

definition in_class :: "string \<Rightarrow> nat \<Rightarrow> bool" where
  \<comment> \<open>A bracketed class of the expression, given by its members: \<^verbatim>\<open>[0-2]\<close> is \<open>''012''\<close>.\<close>
  "in_class members c = (c \<in> set (code_points members))"

definition digit_zeros :: "nat list" where
  \<comment> \<open>The decimal digits of Unicode 14.0, the character database of CPython 3.11: 66 runs
      of ten code points, the digits zero to nine in order; listed are the zeros.\<close>
  "digit_zeros =
     [48, 1632, 1776, 1984, 2406, 2534, 2662, 2790, 2918, 3046, 3174, 3302, 3430, 3558, 3664,
      3792, 3872, 4160, 4240, 6112, 6160, 6470, 6608, 6784, 6800, 6992, 7088, 7232, 7248, 42528,
      43216, 43264, 43472, 43504, 43600, 44016, 65296, 66720, 68912, 69734, 69872, 69942, 70096,
      70384, 70736, 70864, 71248, 71360, 71472, 71904, 72016, 72784, 73040, 73120, 92768, 92864,
      93008, 120782, 120792, 120802, 120812, 120822, 123200, 123632, 125264, 130032]"

definition decimal_value :: "nat \<Rightarrow> nat option" where
  \<comment> \<open>The digit a code point denotes, if it is a decimal digit.\<close>
  "decimal_value c =
     (case find (\<lambda>z. z \<le> c \<and> c \<le> z + 9) digit_zeros of
        None \<Rightarrow> None
      | Some z \<Rightarrow> Some (c - z))"

definition is_decimal :: "nat \<Rightarrow> bool" where
  \<comment> \<open>\<^verbatim>\<open>\d\<close> in a pattern over \<^verbatim>\<open>str\<close>\<close>
  "is_decimal c = (decimal_value c \<noteq> None)"

definition dec_val :: "nat \<Rightarrow> nat" where
  "dec_val c = (case decimal_value c of None \<Rightarrow> 0 | Some v \<Rightarrow> v)"

definition uspace :: "nat \<Rightarrow> bool" where
  \<comment> \<open>\<^verbatim>\<open>str.isspace\<close> on one code point\<close>
  "uspace c =
     (c \<in> set [9, 10, 11, 12, 13, 28, 29, 30, 31, 32, 133, 160, 5760, 8192, 8193, 8194, 8195,
               8196, 8197, 8198, 8199, 8200, 8201, 8202, 8232, 8233, 8239, 8287, 12288])"

definition ustrip :: "ustr \<Rightarrow> ustr" where
  "ustrip s = rev (dropWhile uspace (rev (dropWhile uspace s)))"

definition py_int :: "ustr \<Rightarrow> nat" where
  \<comment> \<open>\<^verbatim>\<open>int(s)\<close> on a matched group, which holds decimal digits, after a space at
      most: white space around the digits is ignored, each digit counts by its value.\<close>
  "py_int s = foldl (\<lambda>n c. 10 * n + dec_val c) 0 (ustrip s)"

datatype value_error = NoMatch | UnconvertedData ustr | OutOfRange

definition datetime_new :: "nat \<Rightarrow> nat \<Rightarrow> nat \<Rightarrow> value_error + datetime" where
  \<comment> \<open>The constructor's range checks: years 1 to 9999, a month of the year, a day of the month.\<close>
  "datetime_new y m d =
     (if 1 \<le> y \<and> y \<le> 9999 \<and> 1 \<le> m \<and> m \<le> 12 \<and> 1 \<le> d \<and> d \<le> days_in_month y m
      then Inr \<lparr>year = y, month = m, day = d\<rparr>
      else Inl OutOfRange)"

text \<open>
  \<^verbatim>\<open>datetime.strptime(s, "%Y%m%d")\<close> matches the regular expression
  \<^verbatim>\<open>(?P<Y>\d\d\d\d)(?P<m>1[0-2]|0[1-9]|[1-9])(?P<d>3[0-1]|[1-2]\d|0[1-9]|[1-9]| [1-9])\<close>
  at the start of \<open>s\<close>, takes the first match of the backtracking search, and fails when
  text remains after it. Each function below lists the ways its group can match a prefix,
  in the order the search tries them, with what follows the prefix. \<^verbatim>\<open>\d\<close> is any
  decimal digit; a bracketed class has the ASCII digits it names and no other.
\<close>

definition re_Y :: "ustr \<Rightarrow> (ustr \<times> ustr) list" where
  "re_Y s =
     (case s of
        a # b # c # d # r \<Rightarrow>
          if is_decimal a \<and> is_decimal b \<and> is_decimal c \<and> is_decimal d
          then [([a, b, c, d], r)] else []
      | _ \<Rightarrow> [])"

definition re_m :: "ustr \<Rightarrow> (ustr \<times> ustr) list" where
  "re_m s =
     (case s of
        a # b # r \<Rightarrow>
          (if a = cp CHR ''1'' \<and> in_class ''012'' b then [([a, b], r)] else []) @
          (if a = cp CHR ''0'' \<and> in_class ''123456789'' b then [([a, b], r)] else [])
      | _ \<Rightarrow> []) @
     (case s of
        a # r \<Rightarrow> if in_class ''123456789'' a then [([a], r)] else []
      | _ \<Rightarrow> [])"

definition re_d :: "ustr \<Rightarrow> (ustr \<times> ustr) list" where
  "re_d s =
     (case s of
        a # b # r \<Rightarrow>
          (if a = cp CHR ''3'' \<and> in_class ''01'' b then [([a, b], r)] else []) @
          (if in_class ''12'' a \<and> is_decimal b then [([a, b], r)] else []) @
          (if a = cp CHR ''0'' \<and> in_class ''123456789'' b then [([a, b], r)] else [])
      | _ \<Rightarrow> []) @
     (case s of
        a # r \<Rightarrow> if in_class ''123456789'' a then [([a], r)] else []
      | _ \<Rightarrow> []) @
     (case s of
        a # b # r \<Rightarrow> if a = cp CHR '' '' \<and> in_class ''123456789'' b then [([a, b], r)] else []
      | _ \<Rightarrow> [])"

definition re_Ymd :: "ustr \<Rightarrow> (ustr \<times> ustr \<times> ustr \<times> ustr) list" where
  \<comment> \<open>All matches of the whole expression, in search order: year, month, day, rest.\<close>
  "re_Ymd s =
     concat (map (\<lambda>(y, r1).
       concat (map (\<lambda>(m, r2).
         map (\<lambda>(d, r3). (y, m, d, r3)) (re_d r2)) (re_m r1))) (re_Y s))"

definition strptime :: "ustr \<Rightarrow> value_error + datetime" where
  "strptime s =
     (case re_Ymd s of
        [] \<Rightarrow> Inl NoMatch
      | (y, m, d, rest) # _ \<Rightarrow>
          if rest \<noteq> [] then Inl (UnconvertedData rest)
          else datetime_new (py_int y) (py_int m) (py_int d))"

definition zfill :: "nat \<Rightarrow> string \<Rightarrow> string" where
  "zfill w s = replicate (w - length s) CHR ''0'' @ s"

definition strftime :: "bool \<Rightarrow> datetime \<Rightarrow> string" where
  \<comment> \<open>\<^verbatim>\<open>dt.strftime("%Y%m%d")\<close>, which the C library carries out: month and day in
      two digits, padded with a zero; the year in four digits, where the library pads
      (the first argument), and else as it is: below the year 1000 glibc, under CPython up
      to 3.12, prints three digits or fewer.\<close>
  "strftime pads dt =
     (if pads then zfill 4 (show_nat (year dt)) else show_nat (year dt)) @
     zfill 2 (show_nat (month dt)) @ zfill 2 (show_nat (day dt))"

definition date_format_hint :: string where
  "date_format_hint = ''date must be in YYYYMMDD format (e.g., 20251021)''"

section \<open>The API gateway\<close>

text \<open>
  A request is what \<^verbatim>\<open>api_call\<close> hands to \<^verbatim>\<open>requests.request\<close>. The library
  call either raises a \<^verbatim>\<open>RequestException\<close> (no response: \<open>Raised\<close> carries the
  exception's text) or returns a response. Of a response the program reads the status
  code, the text, and \<^verbatim>\<open>json()\<close>, which is \<open>None\<close> here when the method raises.
\<close>

type_synonym payload = "(string \<times> pyobj) list"

record request =
  http_method :: string
  url :: ustr
  headers :: "string \<rightharpoonup> string"
  json :: "payload option"
  timeout :: nat

record response =
  status_code :: nat
  reason :: string
  resp_url :: string
  resp_text :: string
  resp_json :: "pyobj option"

datatype transport_result = Raised string | Responded response

record kwargs =
  kw_json :: "payload option"
  kw_headers :: "(string \<rightharpoonup> string) option"
  kw_timeout :: "nat option"

definition raise_for_status :: "response \<Rightarrow> string option" where
  \<comment> \<open>\<^verbatim>\<open>Response.raise_for_status\<close> of the requests library: \<open>Some\<close> the text of the
      \<^verbatim>\<open>HTTPError\<close> it raises for a status from 400 to 599, \<open>None\<close> when it returns.\<close>
  "raise_for_status resp =
     (if 400 \<le> status_code resp \<and> status_code resp < 500
      then Some (show_nat (status_code resp) @ '' Client Error: '' @ reason resp @
                 '' for url: '' @ resp_url resp)
      else if 500 \<le> status_code resp \<and> status_code resp < 600
      then Some (show_nat (status_code resp) @ '' Server Error: '' @ reason resp @
                 '' for url: '' @ resp_url resp)
      else None)"

definition build_request :: "string \<Rightarrow> ustr \<Rightarrow> kwargs \<Rightarrow> request" where
  \<comment> \<open>The first three statements of \<^verbatim>\<open>api_call\<close>: the default time limit, the
      caller's headers laid over \<^verbatim>\<open>USER_AGENT\<close>.\<close>
  "build_request meth u kw =
     (let t = (case kw_timeout kw of None \<Rightarrow> HTTP_TIMEOUT | Some t \<Rightarrow> t);
          hs = (case kw_headers kw of None \<Rightarrow> Map.empty | Some h \<Rightarrow> h);
          hs' = USER_AGENT ++ hs
      in \<lparr>http_method = meth, url = u, headers = hs', json = kw_json kw, timeout = t\<rparr>)"

definition error_detail :: "response \<Rightarrow> string" where
  \<comment> \<open>The inner \<^verbatim>\<open>try\<close>: \<^verbatim>\<open>resp.json()\<close>, or \<^verbatim>\<open>resp.text\<close> when that raises; as
      the f-string writes it.\<close>
  "error_detail resp = (case resp_json resp of Some j \<Rightarrow> py_str j | None \<Rightarrow> resp_text resp)"

definition api_call ::
  "(request \<Rightarrow> transport_result) \<Rightarrow> string \<Rightarrow> ustr \<Rightarrow> kwargs \<Rightarrow> request list \<times> (exit + response)" where
  \<comment> \<open>The first component lists the calls of \<^verbatim>\<open>requests.request\<close>, in order.\<close>
  "api_call requests_request meth u kw =
     (let req = build_request meth u kw
      in ([req],
          case requests_request req of
            Raised e \<Rightarrow> Inl (SystemExit (''Network error: '' @ e))
          | Responded resp \<Rightarrow>
              (case raise_for_status resp of
                 None \<Rightarrow> Inr resp
               | Some e \<Rightarrow>
                   Inl (SystemExit (''HTTP error '' @ show_nat (status_code resp) @ '': '' @
                                    error_detail resp @ ''\<newline>'' @ e)))))"

section \<open>Operations\<close>

text \<open>
  What the process reads from outside: its environment, the clock, whether the C
  library pads the year that \<^verbatim>\<open>strftime\<close> prints, and the network.
  What one run leaves behind: the requests issued, the lines printed, and the message of
  the \<^verbatim>\<open>SystemExit\<close> that ended it, if one did.
\<close>

record world =
  environ :: environ
  now :: datetime
  libc_pads_year :: bool
  requests_request :: "request \<Rightarrow> transport_result"

record outcome =
  sent :: "request list"
  stdout :: "string list"
  exit_message :: "string option"

definition abort :: "exit \<Rightarrow> outcome" where
  "abort e = (case e of SystemExit m \<Rightarrow> \<lparr>sent = [], stdout = [], exit_message = Some m\<rparr>)"

definition finish :: "(response \<Rightarrow> string list) \<Rightarrow> request list \<times> (exit + response) \<Rightarrow> outcome" where
  \<comment> \<open>After \<^verbatim>\<open>api_call\<close>: its \<^verbatim>\<open>SystemExit\<close> ends the run, otherwise the operation
      prints.\<close>
  "finish prints r =
     (case r of
        (reqs, Inl (SystemExit m)) \<Rightarrow> \<lparr>sent = reqs, stdout = [], exit_message = Some m\<rparr>
      | (reqs, Inr resp) \<Rightarrow> \<lparr>sent = reqs, stdout = prints resp, exit_message = None\<rparr>)"

definition create_user :: "world \<Rightarrow> outcome" where
  "create_user w =
     (case require_env (environ w) [''USERNAME'', ''TOKEN''] of
        Inl e \<Rightarrow> abort e
      | Inr _ \<Rightarrow>
          (let payload = [(''token'', opt_obj (TOKEN (environ w))),
                          (''username'', opt_obj (USERNAME (environ w))),
                          (''agreeTermsOfService'', PyStr ''yes''),
                          (''notMinor'', PyStr ''yes'')]
           in finish (\<lambda>resp. [resp_text resp])
                (api_call (requests_request w) ''POST'' (code_points PIXELA_ENDPOINT)
                   \<lparr>kw_json = Some payload, kw_headers = None, kw_timeout = None\<rparr>)))"

definition create_graph ::
  "world \<Rightarrow> string \<Rightarrow> string \<Rightarrow> string \<Rightarrow> string \<Rightarrow> string option \<Rightarrow> outcome" where
  "create_graph w name unit gtype color graph_id =
     (case require_env (environ w) [''USERNAME'', ''TOKEN'', ''GRAPH_ID''] of
        Inl e \<Rightarrow> abort e
      | Inr _ \<Rightarrow>
          (case resolve_graph_id (GRAPH_ID (environ w)) graph_id of
             Inl e \<Rightarrow> abort e
           | Inr gid \<Rightarrow>
               (let u = code_points
                          (PIXELA_ENDPOINT @ ''/'' @ fstr_opt (USERNAME (environ w)) @ ''/graphs'');
                    payload = [(''id'', PyStr gid), (''name'', PyStr name), (''unit'', PyStr unit),
                               (''type'', PyStr gtype), (''color'', PyStr color)]
                in finish (\<lambda>resp. [resp_text resp,
                             ''Graph URL: https://pixe.la/v1/users/'' @
                             fstr_opt (USERNAME (environ w)) @ ''/graphs/'' @ gid @ ''.html''])
                     (api_call (requests_request w) ''POST'' u
                        \<lparr>kw_json = Some payload, kw_headers = Some (HEADERS (environ w)),
                         kw_timeout = None\<rparr>))))"

definition add_pixel :: "world \<Rightarrow> string \<Rightarrow> ustr option \<Rightarrow> string option \<Rightarrow> outcome" where
  "add_pixel w quantity date_str graph_id =
     (case require_env (environ w) [''USERNAME'', ''TOKEN'', ''GRAPH_ID''] of
        Inl e \<Rightarrow> abort e
      | Inr _ \<Rightarrow>
          (case resolve_graph_id (GRAPH_ID (environ w)) graph_id of
             Inl e \<Rightarrow> abort e
           | Inr gid \<Rightarrow>
               (case (case date_str of
                        None \<Rightarrow> Inr (now w)
                      | Some s \<Rightarrow>
                          if s \<noteq> [] then
                            (case strptime s of
                               Inl _ \<Rightarrow> Inl (SystemExit date_format_hint)
                             | Inr dt \<Rightarrow> Inr dt)
                          else Inr (now w)) of
                  Inl e \<Rightarrow> abort e
                | Inr dt \<Rightarrow>
                    (let payload = [(''date'', PyStr (strftime (libc_pads_year w) dt)),
                                    (''quantity'', PyStr quantity)];
                         u = code_points
                               (PIXELA_ENDPOINT @ ''/'' @ fstr_opt (USERNAME (environ w)) @
                                ''/graphs/'' @ gid)
                     in finish (\<lambda>resp. [resp_text resp])
                          (api_call (requests_request w) ''POST'' u
                             \<lparr>kw_json = Some payload, kw_headers = Some (HEADERS (environ w)),
                              kw_timeout = None\<rparr>)))))"

definition update_pixel :: "world \<Rightarrow> string \<Rightarrow> ustr \<Rightarrow> string option \<Rightarrow> outcome" where
  "update_pixel w quantity date_str graph_id =
     (case require_env (environ w) [''USERNAME'', ''TOKEN'', ''GRAPH_ID''] of
        Inl e \<Rightarrow> abort e
      | Inr _ \<Rightarrow>
          (case resolve_graph_id (GRAPH_ID (environ w)) graph_id of
             Inl e \<Rightarrow> abort e
           | Inr gid \<Rightarrow>
               (case strptime date_str of
                  Inl _ \<Rightarrow> abort (SystemExit date_format_hint)
                | Inr _ \<Rightarrow>
                    (let payload = [(''quantity'', PyStr quantity)];
                         u = code_points
                               (PIXELA_ENDPOINT @ ''/'' @ fstr_opt (USERNAME (environ w)) @
                                ''/graphs/'' @ gid @ ''/'') @ date_str
                     in finish (\<lambda>resp. [resp_text resp])
                          (api_call (requests_request w) ''PUT'' u
                             \<lparr>kw_json = Some payload, kw_headers = Some (HEADERS (environ w)),
                              kw_timeout = None\<rparr>)))))"

definition delete_pixel :: "world \<Rightarrow> ustr \<Rightarrow> string option \<Rightarrow> outcome" where
  "delete_pixel w date_str graph_id =
     (case require_env (environ w) [''USERNAME'', ''TOKEN'', ''GRAPH_ID''] of
        Inl e \<Rightarrow> abort e
      | Inr _ \<Rightarrow>
          (case resolve_graph_id (GRAPH_ID (environ w)) graph_id of
             Inl e \<Rightarrow> abort e
           | Inr gid \<Rightarrow>
               (case strptime date_str of
                  Inl _ \<Rightarrow> abort (SystemExit date_format_hint)
                | Inr _ \<Rightarrow>
                    (let u = code_points
                               (PIXELA_ENDPOINT @ ''/'' @ fstr_opt (USERNAME (environ w)) @
                                ''/graphs/'' @ gid @ ''/'') @ date_str
                     in finish (\<lambda>resp. [resp_text resp])
                          (api_call (requests_request w) ''DELETE'' u
                             \<lparr>kw_json = None, kw_headers = Some (HEADERS (environ w)),
                              kw_timeout = None\<rparr>)))))"

text \<open>The parsed command line: what \<^verbatim>\<open>parse_args\<close> hands to \<^verbatim>\<open>main\<close>.\<close>

datatype args =
    CreateUser
  | CreateGraph string string string string "string option"
  | Add string "ustr option" "string option"
  | Update ustr string "string option"
  | Delete ustr "string option"

fun main :: "world \<Rightarrow> args \<Rightarrow> outcome" where
  "main w CreateUser = create_user w"
| "main w (CreateGraph name unit gtype color graph_id) = create_graph w name unit gtype color graph_id"
| "main w (Add quantity date_str graph_id) = add_pixel w quantity date_str graph_id"
| "main w (Update date quantity graph_id) = update_pixel w quantity date graph_id"
| "main w (Delete date graph_id) = delete_pixel w date graph_id"

section \<open>Notions the properties are stated with\<close>

definition ascii_digit :: "nat \<Rightarrow> bool" where
  \<comment> \<open>One of the ten digits \<^verbatim>\<open>0\<close> to \<^verbatim>\<open>9\<close>.\<close>
  "ascii_digit c = in_class ''0123456789'' c"

definition decimal :: "ustr \<Rightarrow> nat" where
  \<comment> \<open>The number a string of decimal digits denotes; a space before them counts for nothing.\<close>
  "decimal s = foldl (\<lambda>n c. 10 * n + dec_val c) 0 s"

definition real_date :: "nat \<Rightarrow> nat \<Rightarrow> nat \<Rightarrow> bool" where
  \<comment> \<open>A day of the calendar \<^verbatim>\<open>datetime\<close> covers: years 1 to 9999.\<close>
  "real_date y m d = (1 \<le> y \<and> y \<le> 9999 \<and> 1 \<le> m \<and> m \<le> 12 \<and> 1 \<le> d \<and> d \<le> days_in_month y m)"

definition valid_yyyymmdd :: "ustr \<Rightarrow> bool" where
  \<comment> \<open>The specification's valid date: eight digits \<^verbatim>\<open>YYYYMMDD\<close> that name a real date.\<close>
  "valid_yyyymmdd s =
     (length s = 8 \<and> list_all ascii_digit s \<and>
      real_date (decimal (take 4 s)) (decimal (take 2 (drop 4 s))) (decimal (drop 6 s)))"

definition month_form :: "ustr \<Rightarrow> bool" where
  \<comment> \<open>A month written \<^verbatim>\<open>1\<close> to \<^verbatim>\<open>9\<close>, \<^verbatim>\<open>01\<close> to \<^verbatim>\<open>09\<close>, or \<^verbatim>\<open>10\<close> to \<^verbatim>\<open>12\<close>.\<close>
  "month_form m =
     (case m of
        [a] \<Rightarrow> in_class ''123456789'' a
      | [a, b] \<Rightarrow> (a = cp CHR ''0'' \<and> in_class ''123456789'' b) \<or>
                  (a = cp CHR ''1'' \<and> in_class ''012'' b)
      | _ \<Rightarrow> False)"

definition day_form :: "ustr \<Rightarrow> bool" where
  \<comment> \<open>A day written \<^verbatim>\<open>1\<close> to \<^verbatim>\<open>9\<close>, \<^verbatim>\<open>01\<close> to \<^verbatim>\<open>09\<close>, \<^verbatim>\<open>1\<close> or \<^verbatim>\<open>2\<close> and any
      decimal digit, \<^verbatim>\<open>30\<close>, \<^verbatim>\<open>31\<close>, or a space and \<^verbatim>\<open>1\<close> to \<^verbatim>\<open>9\<close>.\<close>
  "day_form d =
     (case d of
        [a] \<Rightarrow> in_class ''123456789'' a
      | [a, b] \<Rightarrow> (a = cp CHR ''0'' \<and> in_class ''123456789'' b) \<or>
                  (in_class ''12'' a \<and> is_decimal b) \<or>
                  (a = cp CHR ''3'' \<and> in_class ''01'' b) \<or>
                  (a = cp CHR '' '' \<and> in_class ''123456789'' b)
      | _ \<Rightarrow> False)"

definition lenient_split :: "nat \<Rightarrow> ustr \<Rightarrow> bool" where
  \<comment> \<open>Four decimal digits, a month of \<open>k\<close> characters and a day, naming a real date.\<close>
  "lenient_split k s =
     (4 \<le> length s \<and> list_all is_decimal (take 4 s) \<and>
      month_form (take k (drop 4 s)) \<and> day_form (drop (4 + k) s) \<and>
      real_date (decimal (take 4 s)) (decimal (take k (drop 4 s))) (decimal (drop (4 + k) s)))"

definition lenient_date :: "ustr \<Rightarrow> bool" where
  \<comment> \<open>The strings of the looser form: a year of four decimal digits, then month and day
      in one of the ways above, the three naming a real date. Every valid date is one.\<close>
  "lenient_date s = (lenient_split 1 s \<or> lenient_split 2 s)"

definition required_keys :: "args \<Rightarrow> string list" where
  \<comment> \<open>The keys each operation hands to \<^verbatim>\<open>require_env\<close>.\<close>
  "required_keys a =
     (case a of
        CreateUser \<Rightarrow> [''USERNAME'', ''TOKEN'']
      | _ \<Rightarrow> [''USERNAME'', ''TOKEN'', ''GRAPH_ID''])"

definition graph_override :: "args \<Rightarrow> string option" where
  \<comment> \<open>The \<^verbatim>\<open>--graph\<close> option of a command line, where the command has one.\<close>
  "graph_override a =
     (case a of
        CreateUser \<Rightarrow> None
      | CreateGraph _ _ _ _ g \<Rightarrow> g
      | Add _ _ g \<Rightarrow> g
      | Update _ _ g \<Rightarrow> g
      | Delete _ g \<Rightarrow> g)"

text \<open>
  A sample run: a complete environment, a clock, a C library that does not pad the year
  (glibc), and a service that answers 200.
\<close>

definition demo_env :: environ where
  "demo_env = [''USERNAME'' \<mapsto> ''alice'', ''TOKEN'' \<mapsto> ''secret123'', ''GRAPH_ID'' \<mapsto> ''g1'']"

definition demo_ok :: response where
  "demo_ok = \<lparr>status_code = 200, reason = ''OK'', resp_url = ''https://pixe.la/'',
              resp_text = ''Success.'', resp_json = None\<rparr>"

definition demo_world :: world where
  "demo_world = \<lparr>environ = demo_env, now = \<lparr>year = 2025, month = 10, day = 21\<rparr>,
                 libc_pads_year = False,
                 requests_request = (\<lambda>_. Responded demo_ok)\<rparr>"

definition demo_bad_request :: response where
  "demo_bad_request = \<lparr>status_code = 400, reason = ''Bad Request'',
                       resp_url = ''https://pixe.la/v1/users'',
                       resp_text = ''{}'',
                       resp_json = Some (PyDict [(''message'', PyStr ''bad request'')])\<rparr>"

section \<open>Graph id resolution\<close>

lemma strip_Nil [simp]: "strip [] = []"
  by (simp add: strip_def)

text \<open>
  C3, as the specification states it, sends every blank override to the environment
  default. The code falls back only when the override is absent or empty: an override
  of two spaces is kept by \<^verbatim>\<open>override or GRAPH_ID\<close>, stripped to nothing, and the run
  ends, although the default \<open>g1\<close> is there.
\<close>

theorem resolve_graph_id_blank_override_counterexample:
  "strip ''  '' = [] \<and>
   resolve_graph_id ''g1'' (Some ''  '') = Inl (SystemExit graph_id_required) \<and>
   resolve_graph_id ''g1'' (Some ''  '') \<noteq> Inr ''g1''"
  by (simp add: resolve_graph_id_def py_or_def strip_def isspace_def)

text \<open>
  C3, amended: an override that is not blank wins, trimmed; an absent or empty override
  gives the trimmed environment default when that is not blank; the run ends with the
  configuration error when the override is blank without being empty, or when the
  override is absent or empty and the default is blank.
\<close>

theorem resolve_graph_id_cases:
  "(\<forall>s. override = Some s \<and> strip s \<noteq> [] \<longrightarrow> resolve_graph_id d override = Inr (strip s)) \<and>
   ((override = None \<or> override = Some []) \<and> strip d \<noteq> [] \<longrightarrow>
      resolve_graph_id d override = Inr (strip d)) \<and>
   ((\<exists>s. override = Some s \<and> s \<noteq> [] \<and> strip s = []) \<or>
    ((override = None \<or> override = Some []) \<and> strip d = []) \<longrightarrow>
      resolve_graph_id d override = Inl (SystemExit graph_id_required))"
proof (cases override)
  case None
  then show ?thesis by (auto simp: resolve_graph_id_def py_or_def Let_def)
next
  case (Some s)
  then show ?thesis by (cases "s = []") (auto simp: resolve_graph_id_def py_or_def Let_def)
qed

text \<open>The three examples of the specification, and a blank override.\<close>

theorem resolve_graph_id_cases_witness:
  "resolve_graph_id ''g1'' (Some '''') = Inr ''g1'' \<and>
   resolve_graph_id ''g1'' (Some ''g2'') = Inr ''g2'' \<and>
   resolve_graph_id '''' (Some '''') = Inl (SystemExit graph_id_required) \<and>
   resolve_graph_id ''g1'' (Some '' '') = Inl (SystemExit graph_id_required)"
proof -
  have s1: "strip ''g1'' = ''g1''" and s2: "strip ''g2'' = ''g2''" and s3: "strip '' '' = []"
    by (simp_all add: strip_def isspace_def)
  show ?thesis
    using resolve_graph_id_cases [of "Some ''''" "''g1''"]
      resolve_graph_id_cases [of "Some ''g2''" "''g1''"]
      resolve_graph_id_cases [of "Some ''''" "''''"]
      resolve_graph_id_cases [of "Some '' ''" "''g1''"]
    by (simp add: s1 s2 s3)
qed

section \<open>Required environment\<close>

lemma env_missing_iff: "env_missing env k \<longleftrightarrow> env k = None \<or> env k = Some []"
  by (cases "env k") (simp_all add: env_missing_def truthy_def getenv_def)

lemma require_env_Inl:
  "\<exists>k\<in>set keys. env_missing env k \<Longrightarrow>
   require_env env keys = Inl (SystemExit (missing_message (filter (env_missing env) keys)))"
  by (auto simp: require_env_def Let_def filter_empty_conv)

lemma require_env_Inr:
  "\<forall>k\<in>set keys. \<not> env_missing env k \<Longrightarrow> require_env env keys = Inr ()"
  by (auto simp: require_env_def Let_def filter_empty_conv)

lemma main_require_env_Inl:
  "require_env (environ w) (required_keys a) = Inl e \<Longrightarrow> main w a = abort e"
  by (cases a)
     (simp_all add: required_keys_def create_user_def create_graph_def add_pixel_def
        update_pixel_def delete_pixel_def)

text \<open>
  C4: when a required key is unset or empty, \<^verbatim>\<open>require_env\<close> ends the run with one
  message; between its fixed opening and its closing advice the message lists the keys
  that are missing, each of them and no other, in the order asked for; and an operation
  that asks for these keys ends with that message having issued no request and printed
  nothing.
\<close>

theorem require_env_lists_missing:
  assumes "\<exists>k\<in>set keys. env_missing env k"
  shows "require_env env keys = Inl (SystemExit (missing_message (filter (env_missing env) keys))) \<and>
         missing_message (filter (env_missing env) keys) =
           ''Missing required environment variables: '' @
           join '', '' (filter (env_missing env) keys) @ ''\<newline>'' @
           ''Create a .env file with at least: USERNAME, TOKEN, GRAPH_ID'' \<and>
         set (filter (env_missing env) keys) = {k \<in> set keys. env k = None \<or> env k = Some []} \<and>
         (environ w = env \<and> required_keys a = keys \<longrightarrow>
            main w a = \<lparr>sent = [], stdout = [],
                         exit_message = Some (missing_message (filter (env_missing env) keys))\<rparr>)"
proof -
  have r: "require_env env keys = Inl (SystemExit (missing_message (filter (env_missing env) keys)))"
    using assms by (rule require_env_Inl)
  have s: "set (filter (env_missing env) keys) = {k \<in> set keys. env k = None \<or> env k = Some []}"
    by (auto simp: env_missing_iff)
  have m: "main w a = \<lparr>sent = [], stdout = [],
             exit_message = Some (missing_message (filter (env_missing env) keys))\<rparr>"
    if "environ w = env" "required_keys a = keys"
    using main_require_env_Inl [of w a] r that by (simp add: abort_def)
  show ?thesis using r s m by (simp add: missing_message_def)
qed

text \<open>With the account name set, the token empty and the graph id unset, the message
  lists the token and the graph id, and \<^verbatim>\<open>add\<close> issues no request.\<close>

theorem require_env_lists_missing_witness:
  "require_env [''USERNAME'' \<mapsto> ''alice'', ''TOKEN'' \<mapsto> ''''] [''USERNAME'', ''TOKEN'', ''GRAPH_ID''] =
     Inl (SystemExit (''Missing required environment variables: TOKEN, GRAPH_ID'' @ ''\<newline>'' @
                      ''Create a .env file with at least: USERNAME, TOKEN, GRAPH_ID'')) \<and>
   sent (main (demo_world\<lparr>environ := [''USERNAME'' \<mapsto> ''alice'', ''TOKEN'' \<mapsto> '''']\<rparr>)
           (Add ''5'' None (Some ''g2''))) = []"
proof -
  let ?env = "[''USERNAME'' \<mapsto> ''alice'', ''TOKEN'' \<mapsto> '''']"
  let ?keys = "[''USERNAME'', ''TOKEN'', ''GRAPH_ID'']"
  have h: "\<exists>k\<in>set ?keys. env_missing ?env k"
    by (simp add: env_missing_def truthy_def getenv_def)
  have f: "filter (env_missing ?env) ?keys = [''TOKEN'', ''GRAPH_ID'']"
    by (simp add: env_missing_def truthy_def getenv_def)
  from require_env_lists_missing [OF h, unfolded f,
      of "demo_world\<lparr>environ := ?env\<rparr>" "Add ''5'' None (Some ''g2'')"]
  show ?thesis
    by (simp add: required_keys_def missing_message_def)
qed

section \<open>The gateway's failures and defaults\<close>

text \<open>
  C5: when the service answers with a status from 400 to 599, \<^verbatim>\<open>api_call\<close> has called
  \<^verbatim>\<open>requests.request\<close> once, and ends the run with a message made of the status code
  in decimal, the detail, and the text of the library's error; the detail is what
  \<^verbatim>\<open>json()\<close> returned, as Python prints it, or the raw text when \<^verbatim>\<open>json()\<close> raised.
\<close>

theorem api_call_http_error:
  assumes "rr (build_request meth u kw) = Responded resp"
      and "400 \<le> status_code resp" and "status_code resp < 600"
  shows "\<exists>e. raise_for_status resp = Some e \<and>
           api_call rr meth u kw =
             ([build_request meth u kw],
              Inl (SystemExit (''HTTP error '' @ show_nat (status_code resp) @ '': '' @
                     (case resp_json resp of Some j \<Rightarrow> py_str j | None \<Rightarrow> resp_text resp) @
                     ''\<newline>'' @ e)))"
  using assms by (auto simp: api_call_def raise_for_status_def error_detail_def Let_def)

text \<open>The specification's example: status 400 with the body \<^verbatim>\<open>{"message":"bad request"}\<close>.\<close>

theorem api_call_http_error_witness:
  "api_call (\<lambda>_. Responded demo_bad_request) ''POST'' (code_points PIXELA_ENDPOINT)
     \<lparr>kw_json = None, kw_headers = None, kw_timeout = None\<rparr> =
   ([build_request ''POST'' (code_points PIXELA_ENDPOINT) \<lparr>kw_json = None, kw_headers = None, kw_timeout = None\<rparr>],
    Inl (SystemExit (''HTTP error 400: {'message': 'bad request'}'' @ ''\<newline>'' @
                     ''400 Client Error: Bad Request for url: https://pixe.la/v1/users'')))"
proof -
  have n: "show_nat 400 = ''400''" by code_simp
  have p: "py_str (PyDict [(''message'', PyStr ''bad request'')]) = ''{'message': 'bad request'}''"
    by (simp add: py_str_def repr_str_def repr_char_def printable_def Let_def)
  from api_call_http_error [of "\<lambda>_. Responded demo_bad_request" "''POST''" "code_points PIXELA_ENDPOINT"
      "\<lparr>kw_json = None, kw_headers = None, kw_timeout = None\<rparr>" demo_bad_request]
  show ?thesis
    by (simp add: demo_bad_request_def raise_for_status_def n p)
qed

text \<open>The same status with a body that is not JSON: the raw text is the detail.\<close>

lemma api_call_raw_text_fallback:
  "api_call (\<lambda>_. Responded (demo_bad_request\<lparr>resp_json := None, resp_text := ''oops''\<rparr>)) ''POST'' (code_points PIXELA_ENDPOINT)
     \<lparr>kw_json = None, kw_headers = None, kw_timeout = None\<rparr> =
   ([build_request ''POST'' (code_points PIXELA_ENDPOINT) \<lparr>kw_json = None, kw_headers = None, kw_timeout = None\<rparr>],
    Inl (SystemExit (''HTTP error 400: oops'' @ ''\<newline>'' @
                     ''400 Client Error: Bad Request for url: https://pixe.la/v1/users'')))"
proof -
  have n: "show_nat 400 = ''400''" by code_simp
  show ?thesis
    by (simp add: api_call_def demo_bad_request_def raise_for_status_def error_detail_def n)
qed

lemma finish_Inl: "finish p (reqs, Inl (SystemExit m)) = \<lparr>sent = reqs, stdout = [], exit_message = Some m\<rparr>"
  by (simp add: finish_def)

lemma finish_Inr: "finish p (reqs, Inr resp) = \<lparr>sent = reqs, stdout = p resp, exit_message = None\<rparr>"
  by (simp add: finish_def)

lemma api_call_Raised:
  "rr (build_request meth u kw) = Raised e \<Longrightarrow>
   api_call rr meth u kw = ([build_request meth u kw], Inl (SystemExit (''Network error: '' @ e)))"
  by (simp add: api_call_def)

lemma finish_api_call_all_Raised:
  "\<forall>r. rr r = Raised e \<Longrightarrow>
   finish p (api_call rr meth u kw) =
     \<lparr>sent = [build_request meth u kw], stdout = [], exit_message = Some (''Network error: '' @ e)\<rparr>"
  by (simp add: api_call_Raised finish_Inl)

lemma main_all_Raised:
  assumes "\<forall>r. requests_request w r = Raised e"
  shows "stdout (main w a) = [] \<and> exit_message (main w a) \<noteq> None \<and> length (sent (main w a)) \<le> 1 \<and>
         (sent (main w a) \<noteq> [] \<longrightarrow> exit_message (main w a) = Some (''Network error: '' @ e))"
  using assms
  by (cases a)
     (auto simp: create_user_def create_graph_def add_pixel_def update_pixel_def delete_pixel_def
        finish_api_call_all_Raised abort_def Let_def split: sum.splits option.splits exit.splits)

text \<open>The sample date, 21 October 2025, as the parser reads it.\<close>

lemmas strptime_eval =
  strptime_def re_Ymd_def re_Y_def re_m_def re_d_def in_class_def code_points_def cp_def
  is_decimal_def decimal_value_def digit_zeros_def py_int_def ustrip_def uspace_def dec_val_def
  datetime_new_def days_in_month_def is_leap_def

lemma strptime_demo:
  "strptime (code_points ''20251021'') = Inr \<lparr>year = 2025, month = 10, day = 21\<rparr>"
  by (simp add: strptime_eval)

text \<open>
  C6: when \<^verbatim>\<open>requests.request\<close> raises, \<^verbatim>\<open>api_call\<close> has called it once, returns no
  response, and ends the run with a message that carries the exception's text. A run whose
  network always fails prints nothing, issues at most one request, and ends with that
  message whenever it issued one.
\<close>

theorem api_call_transport_failure:
  assumes "rr (build_request meth u kw) = Raised e"
  shows "api_call rr meth u kw =
           ([build_request meth u kw], Inl (SystemExit (''Network error: '' @ e))) \<and>
         (\<forall>resp. snd (api_call rr meth u kw) \<noteq> Inr resp) \<and>
         ((\<forall>r. requests_request w r = Raised e) \<longrightarrow>
            stdout (main w a) = [] \<and> exit_message (main w a) \<noteq> None \<and>
            length (sent (main w a)) \<le> 1 \<and>
            (sent (main w a) \<noteq> [] \<longrightarrow> exit_message (main w a) = Some (''Network error: '' @ e)))"
  using assms api_call_Raised [of rr meth u kw e] main_all_Raised [of w e a] by simp

text \<open>A refused connection during \<^verbatim>\<open>delete\<close>.\<close>

theorem api_call_transport_failure_witness:
  "api_call (\<lambda>_. Raised ''Connection refused'') ''DELETE'' (code_points ''https://pixe.la/v1/users/alice/graphs/g1/20251021'')
       \<lparr>kw_json = None, kw_headers = Some (HEADERS demo_env), kw_timeout = None\<rparr> =
     ([build_request ''DELETE'' (code_points ''https://pixe.la/v1/users/alice/graphs/g1/20251021'')
         \<lparr>kw_json = None, kw_headers = Some (HEADERS demo_env), kw_timeout = None\<rparr>],
      Inl (SystemExit ''Network error: Connection refused'')) \<and>
   exit_message (main (demo_world\<lparr>requests_request := (\<lambda>_. Raised ''Connection refused'')\<rparr>)
      (Delete (code_points ''20251021'') None)) = Some ''Network error: Connection refused'' \<and>
   length (sent (main (demo_world\<lparr>requests_request := (\<lambda>_. Raised ''Connection refused'')\<rparr>)
      (Delete (code_points ''20251021'') None))) = 1"
proof -
  let ?w = "demo_world\<lparr>requests_request := (\<lambda>_. Raised ''Connection refused'')\<rparr>"
  have d: "strptime (code_points ''20251021'') = Inr \<lparr>year = 2025, month = 10, day = 21\<rparr>"
    by (rule strptime_demo)
  have g: "resolve_graph_id (GRAPH_ID demo_env) None = Inr ''g1''"
    by (simp add: resolve_graph_id_def GRAPH_ID_def getenv_def demo_env_def py_or_def strip_def isspace_def)
  have q: "require_env demo_env [''USERNAME'', ''TOKEN'', ''GRAPH_ID''] = Inr ()"
    by (simp add: require_env_def env_missing_def truthy_def getenv_def demo_env_def)
  have s: "sent (main ?w (Delete (code_points ''20251021'') None)) \<noteq> []"
    by (simp add: delete_pixel_def demo_world_def q g d api_call_def finish_def split: sum.splits)
  from api_call_transport_failure [of "\<lambda>_. Raised ''Connection refused''" "''DELETE''"
      "code_points ''https://pixe.la/v1/users/alice/graphs/g1/20251021''"
      "\<lparr>kw_json = None, kw_headers = Some (HEADERS demo_env), kw_timeout = None\<rparr>"
      "''Connection refused''" ?w "Delete (code_points ''20251021'') None"] s
  show ?thesis
    by (simp add: demo_world_def) (simp add: le_Suc_eq)
qed

text \<open>
  C7: \<^verbatim>\<open>api_call\<close> issues one request; its headers are the caller's laid over the
  identifying header, so that header keeps its value unless the caller gives the key
  \<^verbatim>\<open>User-Agent\<close> itself; its time limit is 15 unless the caller passes one.
\<close>

theorem api_call_headers_timeout:
  "\<exists>req. fst (api_call rr meth u kw) = [req] \<and>
     headers req = USER_AGENT ++ (case kw_headers kw of None \<Rightarrow> Map.empty | Some h \<Rightarrow> h) \<and>
     (\<forall>k. headers req k =
        (case (case kw_headers kw of None \<Rightarrow> Map.empty | Some h \<Rightarrow> h) k of
           Some v \<Rightarrow> Some v
         | None \<Rightarrow> if k = ''User-Agent''
                    then Some ''PixelaHabitTracker/1.0 (+github.com/DEX-01-CODER)'' else None)) \<and>
     timeout req = (case kw_timeout kw of None \<Rightarrow> 15 | Some t \<Rightarrow> t) \<and>
     http_method req = meth \<and> url req = u \<and> json req = kw_json kw"
  by (auto simp: api_call_def build_request_def Let_def USER_AGENT_def HTTP_TIMEOUT_def map_add_def
      split: option.splits)

section \<open>Decimal digits\<close>

lemma cp_values:
  "cp CHR ''0'' = 48" "cp CHR ''1'' = 49" "cp CHR ''3'' = 51" "cp CHR '' '' = 32"
  by (simp_all add: cp_def)

lemma in_class_ranges:
  "in_class ''0123456789'' c \<longleftrightarrow> 48 \<le> c \<and> c \<le> 57"
  "in_class ''123456789'' c \<longleftrightarrow> 49 \<le> c \<and> c \<le> 57"
  "in_class ''012'' c \<longleftrightarrow> 48 \<le> c \<and> c \<le> 50"
  "in_class ''01'' c \<longleftrightarrow> 48 \<le> c \<and> c \<le> 49"
  "in_class ''12'' c \<longleftrightarrow> 49 \<le> c \<and> c \<le> 50"
  by (simp_all add: in_class_def code_points_def) arith+

lemma ascii_digit_iff: "ascii_digit c \<longleftrightarrow> 48 \<le> c \<and> c \<le> 57"
  by (simp add: ascii_digit_def in_class_ranges)

lemma decimal_value_ascii: "ascii_digit c \<Longrightarrow> decimal_value c = Some (c - 48)"
  by (simp add: ascii_digit_iff decimal_value_def digit_zeros_def)

lemma ascii_is_decimal: "ascii_digit c \<Longrightarrow> is_decimal c"
  by (simp add: is_decimal_def decimal_value_ascii)

lemma dec_val_ascii: "ascii_digit c \<Longrightarrow> dec_val c = c - 48"
  by (simp add: dec_val_def decimal_value_ascii)

lemma dec_val_lt: "dec_val c < 10"
proof (cases "find (\<lambda>z. z \<le> c \<and> c \<le> z + 9) digit_zeros")
  case None
  then show ?thesis by (simp add: dec_val_def decimal_value_def)
next
  case (Some z)
  then have "z \<le> c \<and> c \<le> z + 9" by (auto simp: find_Some_iff)
  then have "c - z < 10" by arith
  with Some show ?thesis by (simp add: dec_val_def decimal_value_def)
qed

lemma spaces_not_decimal:
  "list_all (\<lambda>c. decimal_value c = None)
     [9, 10, 11, 12, 13, 28, 29, 30, 31, 32, 133, 160, 5760, 8192, 8193, 8194, 8195,
      8196, 8197, 8198, 8199, 8200, 8201, 8202, 8232, 8233, 8239, 8287, 12288]"
  by (simp add: decimal_value_def digit_zeros_def)

lemma space_not_decimal:
  assumes "uspace c"
  shows "\<not> is_decimal c"
proof -
  have a: "\<forall>c\<in>set [9, 10, 11, 12, 13, 28, 29, 30, 31, 32, 133, 160, 5760, 8192, 8193, 8194, 8195,
      8196, 8197, 8198, 8199, 8200, 8201, 8202, 8232, 8233, 8239, 8287, 12288].
      decimal_value c = None"
    using spaces_not_decimal by (simp only: list_all_iff)
  have m: "c \<in> set [9, 10, 11, 12, 13, 28, 29, 30, 31, 32, 133, 160, 5760, 8192, 8193, 8194,
      8195, 8196, 8197, 8198, 8199, 8200, 8201, 8202, 8232, 8233, 8239, 8287, 12288]"
    using assms by (simp only: uspace_def)
  have "decimal_value c = None"
    by (rule bspec [OF a m])
  then show ?thesis by (simp add: is_decimal_def)
qed

lemma decimal_not_space: "is_decimal c \<Longrightarrow> \<not> uspace c"
  using space_not_decimal by blast

lemma dec_val_space: "dec_val 32 = 0"
  by (simp add: dec_val_def decimal_value_def digit_zeros_def)

lemma ascii_split: "ascii_digit c \<Longrightarrow> c = 48 + dec_val c"
  by (simp add: dec_val_ascii) (simp add: ascii_digit_iff)

lemma of_char_digit_char: "n < 10 \<Longrightarrow> of_char (digit_char n) = 48 + n"
  by (simp add: digit_char_def)

lemma ascii_digit_char: "n < 10 \<Longrightarrow> ascii_digit (of_char (digit_char n))"
  by (simp add: of_char_digit_char ascii_digit_iff)

lemma show_nat_small: "n < 10 \<Longrightarrow> show_nat n = [digit_char n]"
  by (simp add: show_nat.simps)

lemma show_nat_step: "10 \<le> n \<Longrightarrow> show_nat n = show_nat (n div 10) @ [digit_char (n mod 10)]"
  by (subst show_nat.simps) simp

lemma digit_char_0: "digit_char 0 = CHR ''0''"
  by (simp add: digit_char_def char_of_eq_iff take_bit_eq_mod)

lemma show_nat_app:
  assumes "0 < n" "b < 10"
  shows "show_nat (10 * n + b) = show_nat n @ [digit_char b]"
proof -
  have "10 \<le> 10 * n + b" using assms by simp
  moreover have "(10 * n + b) div 10 = n" "(10 * n + b) mod 10 = b" using assms by simp_all
  ultimately show ?thesis by (simp add: show_nat_step [of "10 * n + b"])
qed

lemma show_nat_digits2:
  assumes "a < 10" "b < 10"
  shows "zfill 2 (show_nat (10 * a + b)) = [digit_char a, digit_char b]"
proof (cases "a = 0")
  case True
  then show ?thesis using assms by (simp add: show_nat_small zfill_def digit_char_0)
next
  case False
  then show ?thesis using assms
    by (simp add: show_nat_app show_nat_small zfill_def)
qed

lemma zfill_1: "zfill 4 [x] = [CHR ''0'', CHR ''0'', CHR ''0'', x]"
  by (simp add: zfill_def eval_nat_numeral)

lemma zfill_2: "zfill 4 [x, y] = [CHR ''0'', CHR ''0'', x, y]"
  by (simp add: zfill_def eval_nat_numeral)

lemma zfill_3: "zfill 4 [x, y, z] = [CHR ''0'', x, y, z]"
  by (simp add: zfill_def eval_nat_numeral)

lemma zfill_4: "zfill 4 [x, y, z, t] = [x, y, z, t]"
  by (simp add: zfill_def)

lemma show_nat_2:
  assumes "0 < a" "a < 10" "b < 10"
  shows "show_nat (10 * a + b) = [digit_char a, digit_char b]"
  by (simp only: show_nat_app [OF assms(1) assms(3)] show_nat_small [OF assms(2)] append.simps)

lemma show_nat_3:
  assumes "0 < a" "a < 10" "b < 10" "c < 10"
  shows "show_nat (10 * (10 * a + b) + c) = [digit_char a, digit_char b, digit_char c]"
proof -
  have p: "0 < 10 * a + b" using assms(1) by simp
  show ?thesis
    by (simp only: show_nat_app [OF p assms(4)] show_nat_2 [OF assms(1) assms(2) assms(3)]
        append.simps)
qed

lemma show_nat_4:
  assumes "0 < a" "a < 10" "b < 10" "c < 10" "d < 10"
  shows "show_nat (10 * (10 * (10 * a + b) + c) + d) =
           [digit_char a, digit_char b, digit_char c, digit_char d]"
proof -
  have p: "0 < 10 * (10 * a + b) + c" using assms(1) by simp
  show ?thesis
    by (simp only: show_nat_app [OF p assms(5)]
        show_nat_3 [OF assms(1) assms(2) assms(3) assms(4)] append.simps)
qed

lemma show_nat_digits4:
  assumes "a < 10" "b < 10" "c < 10" "d < 10"
  shows "zfill 4 (show_nat (10 * (10 * (10 * a + b) + c) + d)) =
           [digit_char a, digit_char b, digit_char c, digit_char d]"
proof (cases "a = 0")
  case a0: True
  show ?thesis
  proof (cases "b = 0")
    case b0: True
    show ?thesis
    proof (cases "c = 0")
      case True
      have e: "10 * (10 * (10 * a + b) + c) + d = d" using a0 b0 True by simp
      show ?thesis
        unfolding e using a0 b0 True
        by (simp only: show_nat_small [OF assms(4)] zfill_1 digit_char_0)
    next
      case False
      then have c: "0 < c" by simp
      have e: "10 * (10 * (10 * a + b) + c) + d = 10 * c + d" using a0 b0 by simp
      show ?thesis
        unfolding e using a0 b0
        by (simp only: show_nat_2 [OF c assms(3) assms(4)] zfill_2 digit_char_0)
    qed
  next
    case False
    then have b: "0 < b" by simp
    have e: "10 * (10 * (10 * a + b) + c) + d = 10 * (10 * b + c) + d" using a0 by simp
    show ?thesis
      unfolding e using a0
      by (simp only: show_nat_3 [OF b assms(2) assms(3) assms(4)] zfill_3 digit_char_0)
  qed
next
  case False
  then have a: "0 < a" by simp
  show ?thesis
    by (simp only: show_nat_4 [OF a assms] zfill_4)
qed

lemma split_digit:
  fixes n :: nat
  assumes "n < 10 * k"
  obtains m d where "n = 10 * m + d" "d < 10" "m < k"
proof
  show "n = 10 * (n div 10) + n mod 10" by simp
  show "n mod 10 < 10" by simp
  show "n div 10 < k" using assms by (simp add: less_mult_imp_div_less mult.commute)
qed

lemma four_digits:
  fixes n :: nat
  assumes "n < 10000"
  shows "\<exists>a b c d. a < 10 \<and> b < 10 \<and> c < 10 \<and> d < 10 \<and> n = 10 * (10 * (10 * a + b) + c) + d"
proof -
  from assms have "n < 10 * 1000" by simp
  then obtain m1 d where 1: "n = 10 * m1 + d" "d < 10" "m1 < 1000" by (rule split_digit)
  from 1(3) have "m1 < 10 * 100" by simp
  then obtain m2 c where 2: "m1 = 10 * m2 + c" "c < 10" "m2 < 100" by (rule split_digit)
  from 2(3) have "m2 < 10 * 10" by simp
  then obtain a b where 3: "m2 = 10 * a + b" "b < 10" "a < 10" by (rule split_digit)
  show ?thesis
    using 1(2) 2(2) 3(2) 3(3) by (intro exI [of _ a] exI [of _ b] exI [of _ c] exI [of _ d])
      (simp only: 1(1) 2(1) 3(1) simp_thms)
qed

lemma two_digits:
  fixes n :: nat
  assumes "n < 100"
  shows "\<exists>a b. a < 10 \<and> b < 10 \<and> n = 10 * a + b"
proof -
  from assms have "n < 10 * 10" by simp
  then obtain a b where "n = 10 * a + b" "b < 10" "a < 10" by (rule split_digit)
  then show ?thesis by blast
qed

lemma decimal4h:
  "decimal [a, b, c, d] = 10 * (10 * (10 * dec_val a + dec_val b) + dec_val c) + dec_val d"
  by (simp add: decimal_def)

lemma decimal2: "decimal [a, b] = 10 * dec_val a + dec_val b"
  by (simp add: decimal_def)

lemma decimal1: "decimal [a] = dec_val a"
  by (simp add: decimal_def)

lemma decimal4_le: "decimal [a, b, c, d] \<le> 9999"
  using dec_val_lt [of a] dec_val_lt [of b] dec_val_lt [of c] dec_val_lt [of d]
  by (simp add: decimal4h)

section \<open>Parsing and printing dates\<close>

lemma length_8:
  "length s = 8 \<Longrightarrow> \<exists>a b c d e f g h. s = [a, b, c, d, e, f, g, h]"
  by (auto simp: length_Suc_conv eval_nat_numeral)

lemma ustrip_2: "\<not> uspace a \<Longrightarrow> \<not> uspace b \<Longrightarrow> ustrip [a, b] = [a, b]"
  by (simp add: ustrip_def)

lemma ustrip_1: "\<not> uspace a \<Longrightarrow> ustrip [a] = [a]"
  by (simp add: ustrip_def)

lemma ustrip_4: "\<not> uspace a \<Longrightarrow> \<not> uspace d \<Longrightarrow> ustrip [a, b, c, d] = [a, b, c, d]"
  by (simp add: ustrip_def)

lemma ustrip_space: "\<not> uspace b \<Longrightarrow> ustrip [32, b] = [b]"
  by (simp add: ustrip_def uspace_def)

lemma py_int_decimal: "py_int s = decimal (ustrip s)"
  by (simp add: py_int_def decimal_def)

lemma days_in_month_le: "days_in_month y m \<le> 31"
  by (simp add: days_in_month_def)

lemma days_in_month_ge: "28 \<le> days_in_month y m"
  by (simp add: days_in_month_def)

lemma month_chars:
  assumes "ascii_digit e" "ascii_digit f"
  shows "1 \<le> decimal [e, f] \<and> decimal [e, f] \<le> 12 \<longleftrightarrow>
         (e = 49 \<and> 48 \<le> f \<and> f \<le> 50) \<or> (e = 48 \<and> 49 \<le> f \<and> f \<le> 57)"
  using assms unfolding decimal2 by (simp add: dec_val_ascii) (simp add: ascii_digit_iff, arith)

lemma day_chars:
  assumes "ascii_digit g" "ascii_digit h"
  shows "1 \<le> decimal [g, h] \<and> decimal [g, h] \<le> 31 \<longleftrightarrow>
         (g = 51 \<and> 48 \<le> h \<and> h \<le> 49) \<or> (49 \<le> g \<and> g \<le> 50) \<or> (g = 48 \<and> 49 \<le> h \<and> h \<le> 57)"
  using assms unfolding decimal2 by (simp add: dec_val_ascii) (simp add: ascii_digit_iff, arith)

lemma re_m_valid:
  assumes "ascii_digit e" "ascii_digit f" "1 \<le> decimal [e, f]" "decimal [e, f] \<le> 12"
  shows "\<exists>rest. re_m (e # f # r) = ([e, f], r) # rest"
proof -
  have "(e = 49 \<and> 48 \<le> f \<and> f \<le> 50) \<or> (e = 48 \<and> 49 \<le> f \<and> f \<le> 57)"
    using month_chars [OF assms(1) assms(2)] assms(3) assms(4) by blast
  then show ?thesis
  proof
    assume "e = 49 \<and> 48 \<le> f \<and> f \<le> 50"
    then show ?thesis by (simp add: re_m_def cp_values in_class_ranges)
  next
    assume "e = 48 \<and> 49 \<le> f \<and> f \<le> 57"
    then show ?thesis by (simp add: re_m_def cp_values in_class_ranges)
  qed
qed

lemma re_d_valid:
  assumes "ascii_digit g" "ascii_digit h" "1 \<le> decimal [g, h]" "decimal [g, h] \<le> 31"
  shows "\<exists>rest. re_d (g # h # r) = ([g, h], r) # rest"
proof -
  have "(g = 51 \<and> 48 \<le> h \<and> h \<le> 49) \<or> (49 \<le> g \<and> g \<le> 50) \<or> (g = 48 \<and> 49 \<le> h \<and> h \<le> 57)"
    using day_chars [OF assms(1) assms(2)] assms(3) assms(4) by blast
  then consider "g = 51 \<and> 48 \<le> h \<and> h \<le> 49" | "49 \<le> g \<and> g \<le> 50"
    | "g = 48 \<and> 49 \<le> h \<and> h \<le> 57" by blast
  then show ?thesis
  proof cases
    case 1 then show ?thesis by (simp add: re_d_def cp_values in_class_ranges)
  next
    case 2
    with ascii_is_decimal [OF assms(2)] show ?thesis
      by (simp add: re_d_def cp_values in_class_ranges)
  next
    case 3
    then show ?thesis by (simp add: re_d_def cp_values in_class_ranges)
  qed
qed

lemma re_Y_digits:
  "is_decimal a \<Longrightarrow> is_decimal b \<Longrightarrow> is_decimal c \<Longrightarrow> is_decimal d \<Longrightarrow>
   re_Y (a # b # c # d # r) = [([a, b, c, d], r)]"
  by (simp add: re_Y_def)

lemma re_Ymd_valid:
  assumes "ascii_digit a" "ascii_digit b" "ascii_digit c" "ascii_digit d"
      and "ascii_digit e" "ascii_digit f" "1 \<le> decimal [e, f]" "decimal [e, f] \<le> 12"
      and "ascii_digit g" "ascii_digit h" "1 \<le> decimal [g, h]" "decimal [g, h] \<le> 31"
  shows "\<exists>rest. re_Ymd [a, b, c, d, e, f, g, h] = ([a, b, c, d], [e, f], [g, h], []) # rest"
proof -
  obtain rm where m: "re_m [e, f, g, h] = ([e, f], [g, h]) # rm"
    using re_m_valid [OF assms(5-8)] by blast
  obtain rd where d: "re_d [g, h] = ([g, h], []) # rd"
    using re_d_valid [OF assms(9-12)] by blast
  have y: "re_Y [a, b, c, d, e, f, g, h] = [([a, b, c, d], [e, f, g, h])]"
    using assms(1-4) by (simp add: re_Y_digits ascii_is_decimal)
  show ?thesis
    by (simp add: re_Ymd_def y m d)
qed

lemma valid_yyyymmdd_chars:
  assumes "valid_yyyymmdd s"
  obtains a b c d e f g h where "s = [a, b, c, d, e, f, g, h]"
    "ascii_digit a" "ascii_digit b" "ascii_digit c" "ascii_digit d"
    "ascii_digit e" "ascii_digit f" "ascii_digit g" "ascii_digit h"
    "real_date (decimal [a, b, c, d]) (decimal [e, f]) (decimal [g, h])"
proof -
  from assms have "length s = 8" by (simp add: valid_yyyymmdd_def)
  then obtain a b c d e f g h where s: "s = [a, b, c, d, e, f, g, h]"
    using length_8 by blast
  with assms show ?thesis
    by (intro that [of a b c d e f g h]) (simp_all add: valid_yyyymmdd_def)
qed

lemma ascii_not_space: "ascii_digit c \<Longrightarrow> \<not> uspace c"
  by (simp add: ascii_is_decimal decimal_not_space)

lemma strptime_valid:
  assumes "valid_yyyymmdd s"
  shows "strptime s = Inr \<lparr>year = decimal (take 4 s), month = decimal (take 2 (drop 4 s)),
                           day = decimal (drop 6 s)\<rparr>"
proof -
  from assms obtain a b c d e f g h where s: "s = [a, b, c, d, e, f, g, h]"
    and dg: "ascii_digit a" "ascii_digit b" "ascii_digit c" "ascii_digit d"
      "ascii_digit e" "ascii_digit f" "ascii_digit g" "ascii_digit h"
    and rd: "real_date (decimal [a, b, c, d]) (decimal [e, f]) (decimal [g, h])"
    by (rule valid_yyyymmdd_chars)
  have m: "1 \<le> decimal [e, f]" "decimal [e, f] \<le> 12" and d1: "1 \<le> decimal [g, h]"
    using rd by (simp_all add: real_date_def)
  have d31: "decimal [g, h] \<le> 31"
    using rd days_in_month_le [of "decimal [a, b, c, d]" "decimal [e, f]"]
    by (simp add: real_date_def)
  obtain rest where r: "re_Ymd s = ([a, b, c, d], [e, f], [g, h], []) # rest"
    unfolding s using re_Ymd_valid [OF dg(1-6) m dg(7-8) d1 d31] by blast
  have i: "py_int [a, b, c, d] = decimal [a, b, c, d]" "py_int [e, f] = decimal [e, f]"
    "py_int [g, h] = decimal [g, h]"
    using dg by (simp_all add: py_int_decimal ustrip_2 ustrip_4 ascii_not_space)
  have "strptime s = datetime_new (decimal [a, b, c, d]) (decimal [e, f]) (decimal [g, h])"
    by (simp add: strptime_def r i)
  also have "\<dots> = Inr \<lparr>year = decimal [a, b, c, d], month = decimal [e, f], day = decimal [g, h]\<rparr>"
    using rd by (simp add: datetime_new_def real_date_def)
  finally show ?thesis by (simp add: s)
qed

lemma code_points_digit_chars:
  "a < 10 \<Longrightarrow> code_points [digit_char a] = [48 + a]"
  by (simp add: code_points_def of_char_digit_char)

lemma strftime_valid:
  assumes "valid_yyyymmdd s" and "pads \<or> 1000 \<le> decimal (take 4 s)"
  shows "code_points (strftime pads \<lparr>year = decimal (take 4 s), month = decimal (take 2 (drop 4 s)),
                   day = decimal (drop 6 s)\<rparr>) = s"
proof -
  from assms(1) obtain a b c d e f g h where s: "s = [a, b, c, d, e, f, g, h]"
    and dg: "ascii_digit a" "ascii_digit b" "ascii_digit c" "ascii_digit d"
      "ascii_digit e" "ascii_digit f" "ascii_digit g" "ascii_digit h"
    and rd: "real_date (decimal [a, b, c, d]) (decimal [e, f]) (decimal [g, h])"
    by (rule valid_yyyymmdd_chars)
  have t: "take 4 s = [a, b, c, d]" "take 2 (drop 4 s) = [e, f]" "drop 6 s = [g, h]"
    by (simp_all add: s)
  have l: "dec_val a < 10" "dec_val b < 10" "dec_val c < 10" "dec_val d < 10"
    "dec_val e < 10" "dec_val f < 10" "dec_val g < 10" "dec_val h < 10"
    by (rule dec_val_lt)+
  have y: "(if pads then zfill 4 (show_nat (decimal [a, b, c, d])) else show_nat (decimal [a, b, c, d])) =
           [digit_char (dec_val a), digit_char (dec_val b), digit_char (dec_val c), digit_char (dec_val d)]"
  proof (cases pads)
    case True
    then show ?thesis by (simp only: decimal4h show_nat_digits4 [OF l(1-4)] if_True)
  next
    case False
    with assms(2) have "1000 \<le> decimal [a, b, c, d]" by (simp add: t)
    have "0 < dec_val a"
    proof (rule ccontr)
      assume "\<not> 0 < dec_val a"
      then have "decimal [a, b, c, d] = 10 * (10 * dec_val b + dec_val c) + dec_val d"
        by (simp add: decimal4h)
      with l(2-4) have "decimal [a, b, c, d] < 1000" by simp
      with \<open>1000 \<le> decimal [a, b, c, d]\<close> show False by simp
    qed
    from show_nat_4 [OF this l(1-4)] False show ?thesis by (simp only: decimal4h if_False)
  qed
  have m: "zfill 2 (show_nat (decimal [e, f])) = [digit_char (dec_val e), digit_char (dec_val f)]"
    by (simp only: decimal2 show_nat_digits2 [OF l(5-6)])
  have d: "zfill 2 (show_nat (decimal [g, h])) = [digit_char (dec_val g), digit_char (dec_val h)]"
    by (simp only: decimal2 show_nat_digits2 [OF l(7-8)])
  have "strftime pads \<lparr>year = decimal [a, b, c, d], month = decimal [e, f], day = decimal [g, h]\<rparr> =
          [digit_char (dec_val a), digit_char (dec_val b), digit_char (dec_val c), digit_char (dec_val d),
           digit_char (dec_val e), digit_char (dec_val f), digit_char (dec_val g), digit_char (dec_val h)]"
    by (simp only: strftime_def datetime.select_convs y m d append.simps)
  then have "code_points (strftime pads \<lparr>year = decimal [a, b, c, d], month = decimal [e, f],
               day = decimal [g, h]\<rparr>) =
          [48 + dec_val a, 48 + dec_val b, 48 + dec_val c, 48 + dec_val d,
           48 + dec_val e, 48 + dec_val f, 48 + dec_val g, 48 + dec_val h]"
    using l by (simp add: code_points_def of_char_digit_char)
  also have "\<dots> = s"
    using dg by (simp add: s ascii_split [symmetric])
  finally show ?thesis by (simp only: t)
qed

lemma zfill2_form:
  assumes "n < 100"
  shows "length (zfill 2 (show_nat n)) = 2 \<and> list_all ascii_digit (code_points (zfill 2 (show_nat n)))"
proof -
  obtain a b where l: "a < 10" "b < 10" and n: "n = 10 * a + b"
    using two_digits [OF assms] by blast
  have "zfill 2 (show_nat n) = [digit_char a, digit_char b]"
    unfolding n by (rule show_nat_digits2 [OF l])
  then show ?thesis using l by (simp add: code_points_def ascii_digit_char)
qed

lemma show_nat4_form:
  assumes "1000 \<le> n" "n \<le> 9999"
  shows "length (show_nat n) = 4 \<and> list_all ascii_digit (code_points (show_nat n)) \<and>
         zfill 4 (show_nat n) = show_nat n"
proof -
  from assms(2) have lt: "n < 10000" by simp
  obtain a b c d where l: "a < 10" "b < 10" "c < 10" "d < 10"
    and n: "n = 10 * (10 * (10 * a + b) + c) + d"
    using four_digits [OF lt] by blast
  have a: "0 < a"
  proof (rule ccontr)
    assume "\<not> 0 < a"
    then have "n = 10 * (10 * b + c) + d" by (simp add: n)
    with l(2-4) have "n < 1000" by simp
    with assms(1) show False by simp
  qed
  have "show_nat n = [digit_char a, digit_char b, digit_char c, digit_char d]"
    unfolding n by (rule show_nat_4 [OF a l])
  then show ?thesis using l by (simp add: code_points_def ascii_digit_char zfill_4)
qed

lemma strftime_form:
  assumes "1000 \<le> year dt" "year dt \<le> 9999" "month dt \<le> 12" "day dt \<le> 31"
  shows "length (strftime pads dt) = 8 \<and> list_all ascii_digit (code_points (strftime pads dt))"
  using show_nat4_form [OF assms(1) assms(2)] zfill2_form [of "month dt"] zfill2_form [of "day dt"]
    assms(3) assms(4)
  by (simp add: strftime_def code_points_def)

section \<open>What the parser accepts\<close>

lemma re_Y_shape:
  assumes "(y, r) \<in> set (re_Y s)"
  shows "s = y @ r \<and> length y = 4 \<and> list_all is_decimal y"
  using assms by (auto simp: re_Y_def split: list.splits if_splits)

lemma re_m_shape:
  assumes "(m, r) \<in> set (re_m s)"
  shows "s = m @ r \<and> month_form m"
  using assms by (auto simp: re_m_def month_form_def split: list.splits if_splits)

lemma re_d_shape:
  assumes "(d, r) \<in> set (re_d s)"
  shows "s = d @ r \<and> day_form d"
  using assms by (auto simp: re_d_def day_form_def split: list.splits if_splits)

lemma re_Ymd_shape:
  assumes "(y, m, d, r) \<in> set (re_Ymd s)"
  shows "s = y @ m @ d @ r \<and> length y = 4 \<and> list_all is_decimal y \<and> month_form m \<and> day_form d"
proof -
  from assms obtain r1 r2 where 1: "(y, r1) \<in> set (re_Y s)" and 2: "(m, r2) \<in> set (re_m r1)"
    and 3: "(d, r) \<in> set (re_d r2)"
    by (auto simp: re_Ymd_def)
  show ?thesis
    using re_Y_shape [OF 1] re_m_shape [OF 2] re_d_shape [OF 3] by simp
qed

lemma strptime_Inr:
  assumes "strptime s = Inr dt"
  obtains y m d rest where "re_Ymd s = (y, m, d, []) # rest"
    "datetime_new (py_int y) (py_int m) (py_int d) = Inr dt"
proof (cases "re_Ymd s")
  case Nil
  with assms show ?thesis by (simp add: strptime_def)
next
  case (Cons x rest)
  obtain y m d r where x: "x = (y, m, d, r)" by (cases x)
  from assms Cons x have "r = []" "datetime_new (py_int y) (py_int m) (py_int d) = Inr dt"
    by (auto simp: strptime_def split: if_splits)
  with Cons x show ?thesis by (intro that [of y m d rest]) simp_all
qed

lemma month_form_cases:
  assumes "month_form m"
  obtains a where "m = [a]" "ascii_digit a"
  | a b where "m = [a, b]" "ascii_digit a" "ascii_digit b"
proof (cases m)
  case Nil
  with assms show ?thesis by (simp add: month_form_def)
next
  case (Cons a m')
  show ?thesis
  proof (cases m')
    case Nil
    with Cons assms show ?thesis
      by (intro that(1) [of a]) (simp_all add: month_form_def in_class_ranges ascii_digit_iff)
  next
    case (Cons b m'')
    with \<open>m = a # m'\<close> assms have "m'' = []"
      by (cases m'') (simp_all add: month_form_def)
    with Cons \<open>m = a # m'\<close> assms show ?thesis
      by (intro that(2) [of a b])
        (auto simp: month_form_def in_class_ranges ascii_digit_iff cp_values)
  qed
qed

lemma py_int_month: "month_form m \<Longrightarrow> py_int m = decimal m"
  by (erule month_form_cases) (simp_all add: py_int_decimal ustrip_1 ustrip_2 ascii_not_space)

lemma day_form_cases:
  assumes "day_form d"
  obtains a where "d = [a]" "ascii_digit a"
  | a b where "d = [a, b]" "ascii_digit a" "is_decimal b"
  | b where "d = [32, b]" "ascii_digit b"
proof (cases d)
  case Nil
  with assms show ?thesis by (simp add: day_form_def)
next
  case (Cons a d')
  show ?thesis
  proof (cases d')
    case Nil
    with Cons assms show ?thesis
      by (intro that(1) [of a]) (simp_all add: day_form_def in_class_ranges ascii_digit_iff)
  next
    case (Cons b d'')
    with \<open>d = a # d'\<close> assms have e: "d'' = []"
      by (cases d'') (simp_all add: day_form_def)
    from Cons \<open>d = a # d'\<close> e have d: "d = [a, b]" by simp
    from assms d have f: "(a = 48 \<and> 49 \<le> b \<and> b \<le> 57) \<or> (49 \<le> a \<and> a \<le> 50 \<and> is_decimal b) \<or>
        (a = 51 \<and> 48 \<le> b \<and> b \<le> 49) \<or> (a = 32 \<and> 49 \<le> b \<and> b \<le> 57)"
      by (simp add: day_form_def in_class_ranges cp_values)
    show ?thesis
    proof (cases "a = 32")
      case True
      with f d show ?thesis by (intro that(3) [of b]) (simp_all add: ascii_digit_iff)
    next
      case False
      with f have "ascii_digit a" by (auto simp: ascii_digit_iff)
      moreover from False f have "is_decimal b"
        by (auto simp: ascii_digit_iff intro: ascii_is_decimal)
      ultimately show ?thesis using d by (intro that(2) [of a b])
    qed
  qed
qed

lemma py_int_day: "day_form d \<Longrightarrow> py_int d = decimal d"
proof (erule day_form_cases)
  fix a assume "d = [a]" "ascii_digit a"
  then show ?thesis by (simp add: py_int_decimal ustrip_1 ascii_not_space)
next
  fix a b assume "d = [a, b]" "ascii_digit a" "is_decimal b"
  then show ?thesis by (simp add: py_int_decimal ustrip_2 ascii_not_space decimal_not_space)
next
  fix b assume "d = [32, b]" "ascii_digit b"
  then show ?thesis
    by (simp add: py_int_decimal ustrip_space ascii_not_space decimal2 decimal1 dec_val_space)
qed

lemma py_int_year:
  assumes "length y = 4" "list_all is_decimal y"
  shows "py_int y = decimal y"
proof -
  from assms(1) obtain a b c d where y: "y = [a, b, c, d]"
    by (auto simp: length_Suc_conv eval_nat_numeral)
  with assms(2) show ?thesis
    by (simp add: py_int_decimal ustrip_4 decimal_not_space)
qed

lemma month_form_length: "month_form m \<Longrightarrow> length m = 1 \<or> length m = 2"
  by (erule month_form_cases) simp_all

lemma datetime_new_Inr: "datetime_new y m d = Inr dt \<Longrightarrow> real_date y m d"
  by (simp add: datetime_new_def real_date_def split: if_splits)

lemma real_date_datetime_new: "real_date y m d \<Longrightarrow> datetime_new y m d = Inr \<lparr>year = y, month = m, day = d\<rparr>"
  by (simp add: datetime_new_def real_date_def)

lemma strptime_accepts_lenient:
  assumes "strptime s = Inr dt"
  shows "lenient_date s"
proof -
  from assms obtain y m d rest where r: "re_Ymd s = (y, m, d, []) # rest"
    and n: "datetime_new (py_int y) (py_int m) (py_int d) = Inr dt"
    by (rule strptime_Inr)
  from r have "(y, m, d, []) \<in> set (re_Ymd s)" by simp
  from re_Ymd_shape [OF this]
  have s: "s = y @ m @ d" and ly: "length y = 4" and dy: "list_all is_decimal y"
    and fm: "month_form m" and fd: "day_form d"
    by simp_all
  have rd: "real_date (decimal y) (decimal m) (decimal d)"
    using datetime_new_Inr [OF n]
    by (simp only: py_int_year [OF ly dy] py_int_month [OF fm] py_int_day [OF fd])
  have t: "take 4 s = y" "take (length m) (drop 4 s) = m" "drop (4 + length m) s = d"
    using s ly by simp_all
  have "lenient_split (length m) s"
    using ly dy fm fd rd by (simp add: lenient_split_def t) (simp add: s)
  with month_form_length [OF fm] show ?thesis
    by (auto simp: lenient_date_def)
qed

lemma valid_is_lenient: "valid_yyyymmdd s \<Longrightarrow> lenient_date s"
  using strptime_valid strptime_accepts_lenient by blast


lemma re_m_two:
  "re_m (a # b # r) =
     (if month_form [a, b] then [([a, b], r)] else []) @
     (if month_form [a] then [([a], b # r)] else [])"
  by (auto simp: re_m_def month_form_def cp_values in_class_ranges)

lemma re_m_one: "re_m [a] = (if month_form [a] then [([a], [])] else [])"
  by (simp add: re_m_def month_form_def)

lemma re_d_Nil: "re_d [] = []"
  by (simp add: re_d_def)

lemma re_d_one: "re_d [a] = (if day_form [a] then [([a], [])] else [])"
  by (simp add: re_d_def day_form_def)

lemma re_d_two:
  assumes "day_form [a, b]"
  shows "\<exists>rest. re_d [a, b] = ([a, b], []) # rest"
proof -
  from assms have "(a = 48 \<and> 49 \<le> b \<and> b \<le> 57) \<or> (49 \<le> a \<and> a \<le> 50 \<and> is_decimal b) \<or>
      (a = 51 \<and> 48 \<le> b \<and> b \<le> 49) \<or> (a = 32 \<and> 49 \<le> b \<and> b \<le> 57)"
    by (simp add: day_form_def in_class_ranges cp_values)
  then consider "a = 48 \<and> 49 \<le> b \<and> b \<le> 57" | "49 \<le> a \<and> a \<le> 50 \<and> is_decimal b"
    | "a = 51 \<and> 48 \<le> b \<and> b \<le> 49" | "a = 32 \<and> 49 \<le> b \<and> b \<le> 57" by blast
  then show ?thesis
  proof cases
    case 1 then show ?thesis by (simp add: re_d_def cp_values in_class_ranges)
  next
    case 2 then show ?thesis by (simp add: re_d_def cp_values in_class_ranges)
  next
    case 3 then show ?thesis by (simp add: re_d_def cp_values in_class_ranges)
  next
    case 4 then show ?thesis by (simp add: re_d_def cp_values in_class_ranges)
  qed
qed

lemma re_d_form:
  assumes "day_form d"
  shows "\<exists>rest. re_d d = (d, []) # rest"
proof (cases d)
  case Nil
  with assms show ?thesis by (simp add: day_form_def)
next
  case (Cons a d')
  show ?thesis
  proof (cases d')
    case Nil
    with Cons assms show ?thesis by (simp add: re_d_one)
  next
    case (Cons b d'')
    with \<open>d = a # d'\<close> assms have "d'' = []"
      by (cases d'') (simp_all add: day_form_def)
    with Cons \<open>d = a # d'\<close> assms show ?thesis by (simp add: re_d_two)
  qed
qed

lemma length_4: "length s = 4 \<longleftrightarrow> (\<exists>a b c d. s = [a, b, c, d])"
  by (auto simp: length_Suc_conv eval_nat_numeral)

lemma length_2: "length s = 2 \<longleftrightarrow> (\<exists>a b. s = [a, b])"
  by (auto simp: length_Suc_conv eval_nat_numeral)

lemma length_1: "length s = 1 \<longleftrightarrow> (\<exists>a. s = [a])"
  by (auto simp: length_Suc_conv)

lemma strptime_head:
  assumes "re_Ymd s = (y, m, d, []) # rest" and "length y = 4" "list_all is_decimal y"
      and "month_form m" "day_form d" and "real_date (decimal y) (decimal m) (decimal d)"
  shows "strptime s = Inr \<lparr>year = decimal y, month = decimal m, day = decimal d\<rparr>"
  using assms
  by (simp add: strptime_def py_int_year py_int_month py_int_day real_date_datetime_new)

lemma day_one_to_nine:
  assumes "day_form [z]" "real_date y m d" "10 \<le> m'" "m' \<le> 12"
  shows "real_date y m' (decimal [z])"
proof -
  from assms(1) have "49 \<le> z \<and> z \<le> 57" by (simp add: day_form_def in_class_ranges)
  then have "ascii_digit z" by (simp add: ascii_digit_iff)
  from dec_val_ascii [OF this] \<open>49 \<le> z \<and> z \<le> 57\<close>
  have "1 \<le> decimal [z] \<and> decimal [z] \<le> 9" by (simp add: decimal1) arith
  with assms(2-4) days_in_month_ge [of y m'] show ?thesis
    by (simp add: real_date_def)
qed

lemma month_two_value:
  assumes "month_form [a, x]" "month_form [a]"
  shows "10 \<le> decimal [a, x] \<and> decimal [a, x] \<le> 12"
proof -
  from assms have a: "a = 49" and x: "48 \<le> x" "x \<le> 50"
    by (auto simp: month_form_def in_class_ranges cp_values)
  then have "ascii_digit a" "ascii_digit x" by (simp_all add: ascii_digit_iff)
  from dec_val_ascii [OF this(1)] dec_val_ascii [OF this(2)] a x show ?thesis
    by (simp add: decimal2) arith
qed

lemma lenient_split_accepted:
  assumes "lenient_split k s" and "k = 1 \<or> k = 2"
  shows "\<exists>dt. strptime s = Inr dt"
proof -
  let ?y = "take 4 s" and ?t = "drop 4 s"
  from assms(1) have l: "4 \<le> length s" and dy: "list_all is_decimal ?y"
    and fm: "month_form (take k ?t)" and fd: "day_form (drop (4 + k) s)"
    and rd: "real_date (decimal ?y) (decimal (take k ?t)) (decimal (drop (4 + k) s))"
    by (simp_all add: lenient_split_def)
  have ly: "length ?y = 4" using l by simp
  have "\<exists>a b c d. ?y = [a, b, c, d]"
    using ly by (simp only: length_4)
  then obtain a b c d where y: "?y = [a, b, c, d]" by blast
  have s: "s = a # b # c # d # ?t"
    using append_take_drop_id [of 4 s] y by simp
  have Y: "re_Y s = [(?y, ?t)]"
    using dy y by (subst s) (simp add: re_Y_digits)
  have dk: "drop (4 + k) s = drop k ?t" by (simp add: add.commute)
  note fd = fd [unfolded dk] and rd = rd [unfolded dk]
  obtain rd' where D: "re_d (drop k ?t) = (drop k ?t, []) # rd'"
    using re_d_form [OF fd] by blast
  have "drop k ?t \<noteq> []" using fd by (auto simp: day_form_def)
  then have lk: "k < length ?t" by simp
  from assms(2) show ?thesis
  proof
    assume k: "k = 2"
    have "length (take 2 ?t) = 2" using lk k by simp
    then have "\<exists>e f. take 2 ?t = [e, f]"
      by (simp only: length_2)
    then obtain e f where m: "take 2 ?t = [e, f]" by blast
    then have t: "?t = e # f # drop 2 ?t"
      using append_take_drop_id [of 2 ?t] by simp
    have "re_m ?t = ([e, f], drop 2 ?t) # (if month_form [e] then [([e], f # drop 2 ?t)] else [])"
      using fm k m by (subst t) (simp add: re_m_two)
    with Y D k m have "\<exists>rest. re_Ymd s = (?y, [e, f], drop 2 ?t, []) # rest"
      by (simp add: re_Ymd_def)
    then obtain rest where "re_Ymd s = (?y, [e, f], drop 2 ?t, []) # rest" by blast
    from strptime_head [OF this ly dy] fm fd rd k m show ?thesis by simp
  next
    assume k: "k = 1"
    have "length (take 1 ?t) = 1" using lk k by simp
    then have "\<exists>e. take 1 ?t = [e]"
      by (simp only: length_1)
    then obtain e where m: "take 1 ?t = [e]" by blast
    then have t: "?t = e # drop 1 ?t"
      using append_take_drop_id [of 1 ?t] by simp
    have fe: "month_form [e]" using fm k m by simp
    show ?thesis
    proof (cases "drop 1 ?t")
      case Nil
      with fd k show ?thesis by (simp add: day_form_def)
    next
      case (Cons x r)
      have t': "?t = e # x # r" using t Cons by simp
      show ?thesis
      proof (cases "month_form [e, x] \<and> day_form r")
        case True
        then obtain z where r: "r = [z]" and fz: "day_form [z]"
          using fd k Cons by (cases r) (auto simp: day_form_def split: list.splits)
        have M: "re_m ?t = ([e, x], [z]) # [([e], [x, z])]"
          using True fe by (subst t') (simp add: re_m_two r)
        have "\<exists>rest. re_Ymd s = (?y, [e, x], [z], []) # rest"
          using fz by (simp add: re_Ymd_def Y M re_d_one)
        then obtain rest where R: "re_Ymd s = (?y, [e, x], [z], []) # rest" by blast
        have v: "10 \<le> decimal [e, x] \<and> decimal [e, x] \<le> 12"
          using True fe by (simp add: month_two_value)
        have "real_date (decimal ?y) (decimal [e, x]) (decimal [z])"
          using day_one_to_nine [OF fz rd] v by simp
        from strptime_head [OF R ly dy _ fz this] True show ?thesis by simp
      next
        case False
        have "re_d r = [] \<or> \<not> month_form [e, x]"
        proof (cases "month_form [e, x]")
          case True
          with False have nd: "\<not> day_form r" by simp
          from fd k Cons have "length r \<le> 1"
            by (cases r) (auto simp: day_form_def split: list.splits)
          then have "r = [] \<or> (\<exists>z. r = [z])" by (cases r) auto
          with nd show ?thesis by (auto simp: re_d_Nil re_d_one)
        next
          case False
          then show ?thesis by simp
        qed
        moreover have D': "re_d (x # r) = (x # r, []) # rd'"
          using D k Cons by simp
        moreover have M: "re_m ?t = (if month_form [e, x] then [([e, x], r)] else []) @ [([e], x # r)]"
          using fe by (subst t') (simp add: re_m_two)
        ultimately have "\<exists>rest. re_Ymd s = (?y, [e], x # r, []) # rest"
          by (auto simp: re_Ymd_def Y)
        then obtain rest where R: "re_Ymd s = (?y, [e], x # r, []) # rest" by blast
        from strptime_head [OF R ly dy fe] fd rd k m Cons show ?thesis by simp
      qed
    qed
  qed
qed

lemma lenient_date_accepted: "lenient_date s \<Longrightarrow> \<exists>dt. strptime s = Inr dt"
  unfolding lenient_date_def using lenient_split_accepted by blast

lemma strptime_accepts_iff: "(\<exists>dt. strptime s = Inr dt) \<longleftrightarrow> lenient_date s"
  using lenient_date_accepted strptime_accepts_lenient by blast

section \<open>The operations' requests\<close>

lemma demo_require_env: "require_env demo_env [''USERNAME'', ''TOKEN'', ''GRAPH_ID''] = Inr ()"
  by (simp add: require_env_def env_missing_def truthy_def getenv_def demo_env_def)


lemma demo_resolve: "resolve_graph_id (GRAPH_ID demo_env) None = Inr ''g1''"
  by (simp add: resolve_graph_id_def GRAPH_ID_def getenv_def demo_env_def py_or_def strip_def
      isspace_def)

lemma demo_strftime_now: "strftime False \<lparr>year = 2025, month = 10, day = 21\<rparr> = ''20251021''"
  by code_simp

lemma demo_world_fields:
  "environ demo_world = demo_env" "now demo_world = \<lparr>year = 2025, month = 10, day = 21\<rparr>"
  "libc_pads_year demo_world = False" "requests_request demo_world = (\<lambda>_. Responded demo_ok)"
  by (simp_all add: demo_world_def)

lemma demo_user: "fstr_opt (USERNAME demo_env) = ''alice''"
  by (simp add: fstr_opt_def USERNAME_def getenv_def demo_env_def)

lemma demo_ok_fields: "raise_for_status demo_ok = None" "resp_text demo_ok = ''Success.''"
  by (simp_all add: raise_for_status_def demo_ok_def)

lemma api_call_ok:
  "rr (build_request meth u kw) = Responded resp \<Longrightarrow> raise_for_status resp = None \<Longrightarrow>
   api_call rr meth u kw = ([build_request meth u kw], Inr resp)"
  by (simp add: api_call_def)

lemma api_call_sent: "fst (api_call rr meth u kw) = [build_request meth u kw]"
  by (simp add: api_call_def Let_def)

lemma sent_finish: "sent (finish p r) = fst r"
  by (cases r) (auto simp: finish_def split: sum.splits exit.splits)

lemma add_pixel_eq:
  assumes "require_env (environ w) [''USERNAME'', ''TOKEN'', ''GRAPH_ID''] = Inr ()"
      and "resolve_graph_id (GRAPH_ID (environ w)) graph_id = Inr gid"
      and "case date_str of None \<Rightarrow> dt = now w
           | Some s \<Rightarrow> if s \<noteq> [] then strptime s = Inr dt else dt = now w"
  shows "add_pixel w quantity date_str graph_id =
           finish (\<lambda>resp. [resp_text resp])
             (api_call (requests_request w) ''POST''
                (code_points
                   (PIXELA_ENDPOINT @ ''/'' @ fstr_opt (USERNAME (environ w)) @ ''/graphs/'' @ gid))
                \<lparr>kw_json = Some [(''date'', PyStr (strftime (libc_pads_year w) dt)),
                                  (''quantity'', PyStr quantity)],
                 kw_headers = Some (HEADERS (environ w)), kw_timeout = None\<rparr>)"
  using assms by (auto simp: add_pixel_def Let_def split: option.splits if_splits)

lemma update_pixel_eq:
  assumes "require_env (environ w) [''USERNAME'', ''TOKEN'', ''GRAPH_ID''] = Inr ()"
      and "resolve_graph_id (GRAPH_ID (environ w)) graph_id = Inr gid"
      and "strptime date_str = Inr dt"
  shows "update_pixel w quantity date_str graph_id =
           finish (\<lambda>resp. [resp_text resp])
             (api_call (requests_request w) ''PUT''
                (code_points
                   (PIXELA_ENDPOINT @ ''/'' @ fstr_opt (USERNAME (environ w)) @ ''/graphs/'' @ gid @
                    ''/'') @ date_str)
                \<lparr>kw_json = Some [(''quantity'', PyStr quantity)],
                 kw_headers = Some (HEADERS (environ w)), kw_timeout = None\<rparr>)"
  using assms by (simp add: update_pixel_def Let_def)

lemma delete_pixel_eq:
  assumes "require_env (environ w) [''USERNAME'', ''TOKEN'', ''GRAPH_ID''] = Inr ()"
      and "resolve_graph_id (GRAPH_ID (environ w)) graph_id = Inr gid"
      and "strptime date_str = Inr dt"
  shows "delete_pixel w date_str graph_id =
           finish (\<lambda>resp. [resp_text resp])
             (api_call (requests_request w) ''DELETE''
                (code_points
                   (PIXELA_ENDPOINT @ ''/'' @ fstr_opt (USERNAME (environ w)) @ ''/graphs/'' @ gid @
                    ''/'') @ date_str)
                \<lparr>kw_json = None, kw_headers = Some (HEADERS (environ w)), kw_timeout = None\<rparr>)"
  using assms by (simp add: delete_pixel_def Let_def)

lemma build_request_fields:
  "http_method (build_request meth u kw) = meth" "url (build_request meth u kw) = u"
  "json (build_request meth u kw) = kw_json kw"
  by (simp_all add: build_request_def Let_def)

lemma code_points_append: "code_points (a @ b) = code_points a @ code_points b"
  by (simp add: code_points_def)

text \<open>
  C8: with the configuration resolved and the date, where one is given, accepted by
  \<^verbatim>\<open>strptime\<close>, \<^verbatim>\<open>add\<close> issues one request: a \<^verbatim>\<open>POST\<close> to
  \<^verbatim>\<open>/users/{account}/graphs/{graphId}\<close> under the service's address, whose JSON body
  has the keys \<^verbatim>\<open>date\<close> and \<^verbatim>\<open>quantity\<close> and no other. The date is the parsed one
  printed by \<^verbatim>\<open>strftime\<close>, and the clock's date when no date is given (absent or
  empty); from the year 1000 on it is eight digits. When the service answers with a status
  that is no error, the run prints the response text and nothing else.
\<close>

theorem add_pixel_request:
  assumes "require_env (environ w) [''USERNAME'', ''TOKEN'', ''GRAPH_ID''] = Inr ()"
      and "resolve_graph_id (GRAPH_ID (environ w)) graph_id = Inr gid"
      and "case date_str of None \<Rightarrow> dt = now w
           | Some s \<Rightarrow> if s \<noteq> [] then strptime s = Inr dt else dt = now w"
  shows "\<exists>r. sent (add_pixel w quantity date_str graph_id) = [r] \<and>
           http_method r = ''POST'' \<and>
           url r = code_points (''https://pixe.la/v1/users/'' @ fstr_opt (USERNAME (environ w)) @
                                ''/graphs/'' @ gid) \<and>
           json r = Some [(''date'', PyStr (strftime (libc_pads_year w) dt)),
                          (''quantity'', PyStr quantity)] \<and>
           (date_str = None \<or> date_str = Some [] \<longrightarrow>
              json r = Some [(''date'', PyStr (strftime (libc_pads_year w) (now w))),
                             (''quantity'', PyStr quantity)]) \<and>
           (1000 \<le> year dt \<and> year dt \<le> 9999 \<and> month dt \<le> 12 \<and> day dt \<le> 31 \<longrightarrow>
              length (strftime (libc_pads_year w) dt) = 8 \<and>
              list_all ascii_digit (code_points (strftime (libc_pads_year w) dt))) \<and>
           (\<forall>resp. requests_request w r = Responded resp \<and> raise_for_status resp = None \<longrightarrow>
              stdout (add_pixel w quantity date_str graph_id) = [resp_text resp] \<and>
              exit_message (add_pixel w quantity date_str graph_id) = None)"
proof -
  let ?u = "code_points
              (PIXELA_ENDPOINT @ ''/'' @ fstr_opt (USERNAME (environ w)) @ ''/graphs/'' @ gid)"
  let ?kw = "\<lparr>kw_json = Some [(''date'', PyStr (strftime (libc_pads_year w) dt)),
                               (''quantity'', PyStr quantity)],
              kw_headers = Some (HEADERS (environ w)), kw_timeout = None\<rparr>"
  let ?r = "build_request ''POST'' ?u ?kw"
  have e: "add_pixel w quantity date_str graph_id =
             finish (\<lambda>resp. [resp_text resp]) (api_call (requests_request w) ''POST'' ?u ?kw)"
    by (rule add_pixel_eq [OF assms])
  have s: "sent (add_pixel w quantity date_str graph_id) = [?r]"
    by (simp only: e sent_finish api_call_sent)
  have f: "http_method ?r = ''POST''" "url ?r = ?u" "json ?r = kw_json ?kw"
    by (simp_all add: build_request_def Let_def)
  have n: "dt = now w" if "date_str = None \<or> date_str = Some []"
    using that assms(3) by auto
  have o: "stdout (add_pixel w quantity date_str graph_id) = [resp_text resp] \<and>
           exit_message (add_pixel w quantity date_str graph_id) = None"
    if "requests_request w ?r = Responded resp" "raise_for_status resp = None" for resp
    using that api_call_ok [of "requests_request w" "''POST''" ?u ?kw resp]
    by (simp add: e finish_Inr)
  have g: "length (strftime (libc_pads_year w) dt) = 8 \<and>
           list_all ascii_digit (code_points (strftime (libc_pads_year w) dt))"
    if "1000 \<le> year dt \<and> year dt \<le> 9999 \<and> month dt \<le> 12 \<and> day dt \<le> 31"
    using that strftime_form [of dt "libc_pads_year w"] by simp
  show ?thesis
  proof (intro exI [of _ ?r] conjI)
    show "sent (add_pixel w quantity date_str graph_id) = [?r]" by (rule s)
    show "http_method ?r = ''POST''" by (rule f(1))
    show "url ?r = code_points (''https://pixe.la/v1/users/'' @ fstr_opt (USERNAME (environ w)) @
                                ''/graphs/'' @ gid)"
      unfolding f(2) by (simp add: PIXELA_ENDPOINT_def)
    show "json ?r = Some [(''date'', PyStr (strftime (libc_pads_year w) dt)),
                          (''quantity'', PyStr quantity)]"
      unfolding f(3) by simp
    show "date_str = None \<or> date_str = Some [] \<longrightarrow>
            json ?r = Some [(''date'', PyStr (strftime (libc_pads_year w) (now w))),
                            (''quantity'', PyStr quantity)]"
      unfolding f(3) using n by simp
    show "1000 \<le> year dt \<and> year dt \<le> 9999 \<and> month dt \<le> 12 \<and> day dt \<le> 31 \<longrightarrow>
            length (strftime (libc_pads_year w) dt) = 8 \<and>
            list_all ascii_digit (code_points (strftime (libc_pads_year w) dt))"
      using g by blast
    show "\<forall>resp. requests_request w ?r = Responded resp \<and> raise_for_status resp = None \<longrightarrow>
            stdout (add_pixel w quantity date_str graph_id) = [resp_text resp] \<and>
            exit_message (add_pixel w quantity date_str graph_id) = None"
      using o by blast
  qed
qed

text \<open>
  The sample run on 21 October 2025, without a date, and with the leap day of 2024 as the
  date.
\<close>

theorem add_pixel_request_witness:
  "sent (add_pixel demo_world ''5'' None None) =
     [build_request ''POST'' (code_points ''https://pixe.la/v1/users/alice/graphs/g1'')
        \<lparr>kw_json = Some [(''date'', PyStr ''20251021''), (''quantity'', PyStr ''5'')],
         kw_headers = Some (HEADERS demo_env), kw_timeout = None\<rparr>] \<and>
   stdout (add_pixel demo_world ''5'' None None) = [''Success.''] \<and>
   exit_message (add_pixel demo_world ''5'' None None) = None \<and>
   map http_method (sent (add_pixel demo_world ''7'' (Some (code_points ''20240229'')) None)) =
     [''POST''] \<and>
   map url (sent (add_pixel demo_world ''7'' (Some (code_points ''20240229'')) None)) =
     [code_points ''https://pixe.la/v1/users/alice/graphs/g1''] \<and>
   map json (sent (add_pixel demo_world ''7'' (Some (code_points ''20240229'')) None)) =
     [Some [(''date'', PyStr ''20240229''), (''quantity'', PyStr ''7'')]] \<and>
   stdout (add_pixel demo_world ''7'' (Some (code_points ''20240229'')) None) = [''Success.'']"
proof -
  note w = demo_world_fields and u = demo_user and k = demo_ok_fields
  have p: "strptime (code_points ''20240229'') = Inr \<lparr>year = 2024, month = 2, day = 29\<rparr>"
    by (simp add: strptime_eval)
  have t: "strftime False \<lparr>year = 2024, month = 2, day = 29\<rparr> = ''20240229''"
    by code_simp
  have c: "code_points ''20240229'' \<noteq> []" by (simp add: code_points_def)
  from add_pixel_request [where w = demo_world and gid = "''g1''" and graph_id = None
      and date_str = None and dt = "now demo_world" and quantity = "''5''"]
  obtain r where r: "sent (add_pixel demo_world ''5'' None None) = [r]"
    "http_method r = ''POST''"
    "url r = code_points ''https://pixe.la/v1/users/alice/graphs/g1''"
    "json r = Some [(''date'', PyStr ''20251021''), (''quantity'', PyStr ''5'')]"
    "stdout (add_pixel demo_world ''5'' None None) = [''Success.'']"
    "exit_message (add_pixel demo_world ''5'' None None) = None"
    by (auto simp: w u k demo_require_env demo_resolve demo_strftime_now)
  from add_pixel_request [where w = demo_world and gid = "''g1''" and graph_id = None
      and date_str = "Some (code_points ''20240229'')"
      and dt = "\<lparr>year = 2024, month = 2, day = 29\<rparr>" and quantity = "''7''"]
  obtain r' where r': "sent (add_pixel demo_world ''7'' (Some (code_points ''20240229'')) None) = [r']"
    "http_method r' = ''POST''"
    "url r' = code_points ''https://pixe.la/v1/users/alice/graphs/g1''"
    "json r' = Some [(''date'', PyStr ''20240229''), (''quantity'', PyStr ''7'')]"
    "stdout (add_pixel demo_world ''7'' (Some (code_points ''20240229'')) None) = [''Success.'']"
    by (auto simp: w u k p t c demo_require_env demo_resolve)
  have "sent (add_pixel demo_world ''5'' None None) =
     [build_request ''POST'' (code_points ''https://pixe.la/v1/users/alice/graphs/g1'')
        \<lparr>kw_json = Some [(''date'', PyStr ''20251021''), (''quantity'', PyStr ''5'')],
         kw_headers = Some (HEADERS demo_env), kw_timeout = None\<rparr>]"
    by (simp add: add_pixel_def w u demo_require_env demo_resolve demo_strftime_now
        sent_finish api_call_sent PIXELA_ENDPOINT_def)
  with r r' show ?thesis by simp
qed

lemma valid_date_forwarding:
  assumes "valid_yyyymmdd s"
      and "require_env (environ w) [''USERNAME'', ''TOKEN'', ''GRAPH_ID''] = Inr ()"
      and "resolve_graph_id (GRAPH_ID (environ w)) graph_id = Inr gid"
  shows "(\<exists>dt. strptime s = Inr dt) \<and>
         map url (sent (update_pixel w quantity s graph_id)) =
           [code_points (''https://pixe.la/v1/users/'' @ fstr_opt (USERNAME (environ w)) @
                         ''/graphs/'' @ gid @ ''/'') @ s] \<and>
         map url (sent (delete_pixel w s graph_id)) =
           [code_points (''https://pixe.la/v1/users/'' @ fstr_opt (USERNAME (environ w)) @
                         ''/graphs/'' @ gid @ ''/'') @ s] \<and>
         (libc_pads_year w \<or> 1000 \<le> decimal (take 4 s) \<longrightarrow>
            (\<exists>d. code_points d = s \<and>
               map json (sent (add_pixel w quantity (Some s) graph_id)) =
                 [Some [(''date'', PyStr d), (''quantity'', PyStr quantity)]]))"
proof -
  let ?dt = "\<lparr>year = decimal (take 4 s), month = decimal (take 2 (drop 4 s)),
              day = decimal (drop 6 s)\<rparr>"
  have p: "strptime s = Inr ?dt" by (rule strptime_valid [OF assms(1)])
  have n: "s \<noteq> []" using assms(1) by (auto simp: valid_yyyymmdd_def)
  have d: "case Some s of None \<Rightarrow> ?dt = now w
           | Some s' \<Rightarrow> if s' \<noteq> [] then strptime s' = Inr ?dt else ?dt = now w"
    using p n by simp
  have a: "map json (sent (add_pixel w quantity (Some s) graph_id)) =
             [Some [(''date'', PyStr (strftime (libc_pads_year w) ?dt)), (''quantity'', PyStr quantity)]]"
    by (simp add: add_pixel_eq [OF assms(2) assms(3) d] sent_finish api_call_sent
        build_request_fields)
  have f: "code_points (strftime (libc_pads_year w) ?dt) = s"
    if "libc_pads_year w \<or> 1000 \<le> decimal (take 4 s)"
    using strftime_valid [OF assms(1) that] .
  have u: "map url (sent (update_pixel w quantity s graph_id)) =
             [code_points (PIXELA_ENDPOINT @ ''/'' @ fstr_opt (USERNAME (environ w)) @ ''/graphs/'' @
                           gid @ ''/'') @ s]"
    by (simp add: update_pixel_eq [OF assms(2) assms(3) p] sent_finish api_call_sent
        build_request_fields)
  have e: "map url (sent (delete_pixel w s graph_id)) =
             [code_points (PIXELA_ENDPOINT @ ''/'' @ fstr_opt (USERNAME (environ w)) @ ''/graphs/'' @
                           gid @ ''/'') @ s]"
    by (simp add: delete_pixel_eq [OF assms(2) assms(3) p] sent_finish api_call_sent
        build_request_fields)
  show ?thesis
  proof (intro conjI impI)
    show "\<exists>dt. strptime s = Inr dt" using p by blast
    show "map url (sent (update_pixel w quantity s graph_id)) =
           [code_points (''https://pixe.la/v1/users/'' @ fstr_opt (USERNAME (environ w)) @
                         ''/graphs/'' @ gid @ ''/'') @ s]"
      unfolding u by (simp add: PIXELA_ENDPOINT_def)
    show "map url (sent (delete_pixel w s graph_id)) =
           [code_points (''https://pixe.la/v1/users/'' @ fstr_opt (USERNAME (environ w)) @
                         ''/graphs/'' @ gid @ ''/'') @ s]"
      unfolding e by (simp add: PIXELA_ENDPOINT_def)
    assume "libc_pads_year w \<or> 1000 \<le> decimal (take 4 s)"
    from f [OF this] a
    show "\<exists>d. code_points d = s \<and>
            map json (sent (add_pixel w quantity (Some s) graph_id)) =
              [Some [(''date'', PyStr d), (''quantity'', PyStr quantity)]]"
      by (intro exI [of _ "strftime (libc_pads_year w) ?dt"] conjI)
  qed
qed

lemmas date_eval =
  valid_yyyymmdd_def lenient_date_def lenient_split_def month_form_def day_form_def real_date_def
  decimal_def dec_val_def decimal_value_def digit_zeros_def is_decimal_def ascii_digit_def
  in_class_def code_points_def cp_def days_in_month_def is_leap_def

text \<open>
  C2: a valid date of eight digits passes \<^verbatim>\<open>strptime\<close>, and \<^verbatim>\<open>update\<close> and
  \<^verbatim>\<open>delete\<close> put the string itself in the path. \<^verbatim>\<open>add\<close> does not send the string:
  it prints the parsed date again with \<^verbatim>\<open>strftime\<close>, and where the C library does
  not pad the year, the zeros before a year below 1000 are lost. In the sample run, given
  \<^verbatim>\<open>09990101\<close>, \<^verbatim>\<open>add\<close> sends the seven characters \<^verbatim>\<open>9990101\<close>, while \<^verbatim>\<open>update\<close>
  sends \<^verbatim>\<open>09990101\<close>.
\<close>

theorem valid_date_reformatted_by_add:
  "valid_yyyymmdd (code_points ''09990101'') \<and>
   map json (sent (add_pixel demo_world ''5'' (Some (code_points ''09990101'')) None)) =
     [Some [(''date'', PyStr ''9990101''), (''quantity'', PyStr ''5'')]] \<and>
   map url (sent (update_pixel demo_world ''5'' (code_points ''09990101'') None)) =
     [code_points ''https://pixe.la/v1/users/alice/graphs/g1/09990101'']"
proof -
  note w = demo_world_fields and u = demo_user
  have v: "valid_yyyymmdd (code_points ''09990101'')"
    by (simp add: date_eval)
  have p: "strptime (code_points ''09990101'') = Inr \<lparr>year = 999, month = Suc 0, day = Suc 0\<rparr>"
    by (simp add: strptime_eval)
  have t: "strftime False \<lparr>year = 999, month = Suc 0, day = Suc 0\<rparr> = ''9990101''"
    by code_simp
  have c: "code_points ''09990101'' \<noteq> []" by (simp add: code_points_def)
  have q: "require_env (environ demo_world) [''USERNAME'', ''TOKEN'', ''GRAPH_ID''] = Inr ()"
    by (simp add: w demo_require_env)
  have g: "resolve_graph_id (GRAPH_ID (environ demo_world)) None = Inr ''g1''"
    by (simp add: w demo_resolve)
  have a: "map json (sent (add_pixel demo_world ''5'' (Some (code_points ''09990101'')) None)) =
     [Some [(''date'', PyStr ''9990101''), (''quantity'', PyStr ''5'')]]"
    by (simp add: add_pixel_def w u p t c demo_require_env demo_resolve sent_finish api_call_sent
        build_request_fields)
  have b: "map url (sent (update_pixel demo_world ''5'' (code_points ''09990101'') None)) =
     [code_points ''https://pixe.la/v1/users/alice/graphs/g1/09990101'']"
    unfolding update_pixel_eq [OF q g p]
    by (simp add: w u sent_finish api_call_sent build_request_fields PIXELA_ENDPOINT_def
        code_points_def)
  show ?thesis using v a b by simp
qed

text \<open>With a library that pads the year, the same run sends the string as it was given.\<close>

lemma padded_year_forwarded:
  "map json (sent (add_pixel (demo_world\<lparr>libc_pads_year := True\<rparr>) ''5''
                     (Some (code_points ''09990101'')) None)) =
     [Some [(''date'', PyStr ''09990101''), (''quantity'', PyStr ''5'')]]"
proof -
  note w = demo_world_fields and u = demo_user
  have p: "strptime (code_points ''09990101'') = Inr \<lparr>year = 999, month = Suc 0, day = Suc 0\<rparr>"
    by (simp add: strptime_eval)
  have t: "strftime True \<lparr>year = 999, month = Suc 0, day = Suc 0\<rparr> = ''09990101''"
    by code_simp
  have c: "code_points ''09990101'' \<noteq> []" by (simp add: code_points_def)
  show ?thesis
    by (simp add: add_pixel_def w u p t c demo_require_env demo_resolve sent_finish api_call_sent
        build_request_fields)
qed

section \<open>Configuration and credentials in the operations\<close>

lemma required_keys_graph: "a \<noteq> CreateUser \<Longrightarrow> required_keys a = [''USERNAME'', ''TOKEN'', ''GRAPH_ID'']"
  by (cases a) (simp_all add: required_keys_def)

text \<open>
  C9: when \<^verbatim>\<open>GRAPH_ID\<close> is unset in the environment, every operation on a graph ends
  with the missing-variables message, which names \<^verbatim>\<open>GRAPH_ID\<close>, having issued no
  request, whatever \<^verbatim>\<open>--graph\<close> says: \<^verbatim>\<open>require_env\<close> runs before
  \<^verbatim>\<open>resolve_graph_id\<close> looks at the override.
\<close>

theorem graph_override_does_not_replace_env:
  assumes "environ w ''GRAPH_ID'' = None" and "a \<noteq> CreateUser"
  shows "''GRAPH_ID'' \<in> set (filter (env_missing (environ w)) [''USERNAME'', ''TOKEN'', ''GRAPH_ID'']) \<and>
         main w a = \<lparr>sent = [], stdout = [],
           exit_message = Some (missing_message
             (filter (env_missing (environ w)) [''USERNAME'', ''TOKEN'', ''GRAPH_ID'']))\<rparr>"
proof -
  let ?keys = "[''USERNAME'', ''TOKEN'', ''GRAPH_ID'']"
  have m: "env_missing (environ w) ''GRAPH_ID''"
    using assms(1) by (simp add: env_missing_iff)
  then have e: "\<exists>k\<in>set ?keys. env_missing (environ w) k" by simp
  have "require_env (environ w) (required_keys a) =
          Inl (SystemExit (missing_message (filter (env_missing (environ w)) ?keys)))"
    unfolding required_keys_graph [OF assms(2)] by (rule require_env_Inl [OF e])
  then have "main w a = abort (SystemExit (missing_message (filter (env_missing (environ w)) ?keys)))"
    by (rule main_require_env_Inl)
  then show ?thesis using m by (simp add: abort_def)
qed

text \<open>\<^verbatim>\<open>add 5 --graph g2\<close> with account and token set and no \<^verbatim>\<open>GRAPH_ID\<close>.\<close>

theorem graph_override_does_not_replace_env_witness:
  "graph_override (Add ''5'' None (Some ''g2'')) = Some ''g2'' \<and> strip ''g2'' = ''g2'' \<and>
   main (demo_world\<lparr>environ := [''USERNAME'' \<mapsto> ''alice'', ''TOKEN'' \<mapsto> ''secret123'']\<rparr>)
        (Add ''5'' None (Some ''g2'')) =
     \<lparr>sent = [], stdout = [],
      exit_message = Some (''Missing required environment variables: GRAPH_ID'' @ ''\<newline>'' @
                           ''Create a .env file with at least: USERNAME, TOKEN, GRAPH_ID'')\<rparr>"
proof -
  let ?w = "demo_world\<lparr>environ := [''USERNAME'' \<mapsto> ''alice'', ''TOKEN'' \<mapsto> ''secret123'']\<rparr>"
  have g: "environ ?w ''GRAPH_ID'' = None" by simp
  have f: "filter (env_missing (environ ?w)) [''USERNAME'', ''TOKEN'', ''GRAPH_ID''] = [''GRAPH_ID'']"
    by (simp add: env_missing_def truthy_def getenv_def)
  have s: "strip ''g2'' = ''g2''" by (simp add: strip_def isspace_def)
  from graph_override_does_not_replace_env [OF g, of "Add ''5'' None (Some ''g2'')", unfolded f]
  show ?thesis by (simp add: s graph_override_def missing_message_def)
qed








section \<open>Rejected dates\<close>

lemma day_form_length: "day_form d \<Longrightarrow> length d = 1 \<or> length d = 2"
  by (erule day_form_cases) simp_all

lemma month_form_chars: "month_form m \<Longrightarrow> c \<in> set m \<Longrightarrow> is_decimal c"
  by (erule month_form_cases) (auto simp: ascii_is_decimal)

lemma day_form_chars: "day_form d \<Longrightarrow> c \<in> set d \<Longrightarrow> is_decimal c \<or> c = 32"
  by (erule day_form_cases) (auto simp: ascii_is_decimal)

lemma lenient_split_length:
  assumes "lenient_split k s"
  shows "length s = 5 + k \<or> length s = 6 + k"
proof -
  from assms have "day_form (drop (4 + k) s)" by (simp add: lenient_split_def)
  from day_form_length [OF this] show ?thesis by simp arith
qed

lemma lenient_date_length: "lenient_date s \<Longrightarrow> 6 \<le> length s \<and> length s \<le> 8"
  unfolding lenient_date_def
  using lenient_split_length [of 1 s] lenient_split_length [of 2 s] by auto

lemma lenient_split_chars:
  assumes "lenient_split k s" and "c \<in> set s"
  shows "is_decimal c \<or> c = 32"
proof -
  from assms(1) have y: "list_all is_decimal (take 4 s)"
    and m: "month_form (take k (drop 4 s))" and d: "day_form (drop (4 + k) s)"
    by (simp_all add: lenient_split_def)
  have dk: "drop (4 + k) s = drop k (drop 4 s)" by (simp add: add.commute)
  have "set s = set (take 4 s @ take k (drop 4 s) @ drop k (drop 4 s))"
    by (simp only: append_take_drop_id)
  then have "set s = set (take 4 s) \<union> set (take k (drop 4 s)) \<union> set (drop (4 + k) s)"
    unfolding dk by (simp only: set_append Un_assoc)
  with assms(2) consider "c \<in> set (take 4 s)" | "c \<in> set (take k (drop 4 s))"
    | "c \<in> set (drop (4 + k) s)" by blast
  then show ?thesis
  proof cases
    case 1
    with y show ?thesis by (simp add: list_all_iff)
  next
    case 2
    with m show ?thesis by (simp add: month_form_chars)
  next
    case 3
    with d show ?thesis by (rule day_form_chars)
  qed
qed

lemma lenient_date_chars: "lenient_date s \<Longrightarrow> c \<in> set s \<Longrightarrow> is_decimal c \<or> c = 32"
  unfolding lenient_date_def using lenient_split_chars by blast

lemma lenient_eight_digits:
  assumes "lenient_date s" and "length s = 8"
  shows "real_date (decimal (take 4 s)) (decimal (take 2 (drop 4 s))) (decimal (drop 6 s))"
proof -
  have "\<not> lenient_split 1 s"
    using lenient_split_length [of 1 s] assms(2) by auto
  with assms(1) have "lenient_split 2 s" by (simp add: lenient_date_def)
  then show ?thesis by (simp add: lenient_split_def)
qed

text \<open>
  The strings the specification lists are among those the parser refuses: a wrong length,
  a character that is no digit, eight digits that name no day of the calendar.
\<close>

lemma listed_strings_not_lenient:
  assumes "length s < 6 \<or> 8 < length s \<or> (\<exists>c\<in>set s. \<not> is_decimal c \<and> c \<noteq> 32) \<or>
           (length s = 8 \<and> list_all ascii_digit s \<and> \<not> valid_yyyymmdd s)"
  shows "\<not> lenient_date s"
proof
  assume l: "lenient_date s"
  from lenient_date_length [OF l] lenient_date_chars [OF l] lenient_eight_digits [OF l] assms
  show False by (auto simp: valid_yyyymmdd_def)
qed


text \<open>
  A digit of another script is a digit to the parser: \<^verbatim>\<open>2025102\<close> followed by the
  fullwidth digit one (U+FF11) is read as 21 October 2025, and \<^verbatim>\<open>delete\<close> sends it.
\<close>

lemma fullwidth_digit_accepted:
  "\<not> valid_yyyymmdd (code_points ''2025102'' @ [65297]) \<and>
   lenient_date (code_points ''2025102'' @ [65297]) \<and>
   strptime (code_points ''2025102'' @ [65297]) = Inr \<lparr>year = 2025, month = 10, day = 21\<rparr> \<and>
   map url (sent (delete_pixel demo_world (code_points ''2025102'' @ [65297]) None)) =
     [code_points ''https://pixe.la/v1/users/alice/graphs/g1/2025102'' @ [65297]]"
proof -
  note w = demo_world_fields and u = demo_user
  have q: "require_env (environ demo_world) [''USERNAME'', ''TOKEN'', ''GRAPH_ID''] = Inr ()"
    by (simp add: w demo_require_env)
  have g: "resolve_graph_id (GRAPH_ID (environ demo_world)) None = Inr ''g1''"
    by (simp add: w demo_resolve)
  have v: "\<not> valid_yyyymmdd (code_points ''2025102'' @ [65297])"
    by (simp add: date_eval)
  have p: "strptime (code_points ''2025102'' @ [65297]) = Inr \<lparr>year = 2025, month = 10, day = 21\<rparr>"
    by (simp add: strptime_eval)
  have l: "lenient_date (code_points ''2025102'' @ [65297])"
    by (rule strptime_accepts_lenient [OF p])
  have d: "map url (sent (delete_pixel demo_world (code_points ''2025102'' @ [65297]) None)) =
     [code_points ''https://pixe.la/v1/users/alice/graphs/g1/2025102'' @ [65297]]"
    unfolding delete_pixel_eq [OF q g p]
    by (simp add: w u sent_finish api_call_sent build_request_fields PIXELA_ENDPOINT_def
        code_points_def)
  show ?thesis using v l p d by simp
qed



end
